theory Spec2Isabelle
  imports
    Complex_Main
    "HOL-Library.Char_ord"
    "HOL-Library.List_Lexorder"
    "HOL-Library.Log_Nat"
begin

section \<open>Sports statistics dashboard: utilities, data source and controller\<close>

text \<open>
  The development follows the JavaScript sources \<^verbatim>\<open>js/utils.js\<close>, \<^verbatim>\<open>js/api.js\<close>,
  \<^verbatim>\<open>js/config-public.js\<close> and \<^verbatim>\<open>js/app.js\<close>.

  Conventions of the embedding:
  \<^item> a JavaScript string is a \<open>string\<close>; the default order of \<open>Array.prototype.sort\<close> and
    of \<open><\<close> on strings (lexicographic on code units) is the lexicographic order on
    \<open>char list\<close>;
  \<^item> \<open>undefined\<close> is \<open>None\<close> of an option type;
  \<^item> \<open>Math.random()\<close> reads a global source of numbers in \<open>[0, 1)\<close>; the source is an
    explicit stream that every function takes and returns, one element consumed per call;
  \<^item> an exception or a rejected promise is the \<open>Inl\<close> of a sum type.
\<close>

subsection \<open>The random source\<close>

type_synonym rng = "nat \<Rightarrow> rat"

definition random :: "rng \<Rightarrow> rat \<times> rng" where
  "random g = (g 0, \<lambda>n. g (Suc n))"

text \<open>What \<open>Math.random\<close> promises: every draw lies in \<open>[0, 1)\<close>.\<close>

definition unit_rng :: "rng \<Rightarrow> bool" where
  "unit_rng g \<longleftrightarrow> (\<forall>n. 0 \<le> g n \<and> g n < 1)"

text \<open>A source that yields the listed draws and zeros from then on.\<close>

definition draws :: "rat list \<Rightarrow> rng" where
  "draws xs = (\<lambda>n. if n < length xs then xs ! n else 0)"

subsection \<open>utils.js: random integer and random element\<close>

text \<open>
  \<^verbatim>\<open>getRandomInt(min, max) = Math.floor(Math.random() * (max - min + 1)) + min\<close>
  (\<open>Math.ceil(min)\<close> and \<open>Math.floor(max)\<close> are the identity on the integer bounds that
  every caller passes). The product of the draw and the small integer is taken exactly:
  every property below either holds for all draws or chooses them.
\<close>

definition getRandomInt :: "int \<Rightarrow> int \<Rightarrow> rng \<Rightarrow> int \<times> rng" where
  "getRandomInt mn mx g =
     (let (r, g') = random g in (\<lfloor>r * of_int (mx - mn + 1)\<rfloor> + mn, g'))"

text \<open>
  \<^verbatim>\<open>getRandomElement(array) = array[Math.floor(Math.random() * array.length)]\<close>;
  an index outside the array reads \<open>undefined\<close>.
\<close>

definition getRandomElement :: "'a list \<Rightarrow> rng \<Rightarrow> 'a option \<times> rng" where
  "getRandomElement xs g =
     (let (r, g') = random g;
          i = \<lfloor>r * of_nat (length xs)\<rfloor>
      in (if 0 \<le> i \<and> i < int (length xs) then Some (xs ! nat i) else None, g'))"

subsection \<open>api.js: the fixed rosters\<close>

definition NBA_TEAMS :: "string list" where
  "NBA_TEAMS = [''Lakers'', ''Celtics'', ''Warriors'', ''Nets'', ''Bucks'', ''Heat'',
     ''Suns'', ''Nuggets'', ''Mavericks'', ''Clippers'', ''76ers'', ''Raptors'']"

definition NFL_TEAMS :: "string list" where
  "NFL_TEAMS = [''Chiefs'', ''Bills'', ''49ers'', ''Eagles'', ''Cowboys'', ''Bengals'',
     ''Patriots'', ''Packers'', ''Ravens'', ''Steelers'', ''Rams'', ''Seahawks'']"

definition MLB_TEAMS :: "string list" where
  "MLB_TEAMS = [''Yankees'', ''Dodgers'', ''Red Sox'', ''Astros'', ''Braves'', ''Cubs'',
     ''Cardinals'', ''Giants'', ''Mets'', ''Phillies'', ''Rays'', ''Blue Jays'']"

definition EPL_TEAMS :: "string list" where
  "EPL_TEAMS = [''Man City'', ''Arsenal'', ''Liverpool'', ''Chelsea'', ''Man United'',
     ''Tottenham'', ''Newcastle'', ''Brighton'', ''Aston Villa'', ''West Ham'', ''Leicester'',
     ''Everton'']"

subsection \<open>api.js: generateMockGames\<close>

text \<open>
  A game record. \<open>homeTeam\<close>, \<open>awayTeam\<close> and \<open>winner\<close> are \<open>undefined\<close> when the roster
  has no team to draw, or when the real response lacks them. The date of a mock game is
  kept as the number of days subtracted from today, that of a real game is the start time
  of the response.
\<close>

datatype game_date = DaysAgo int | StartTime "string option"

record game =
  game_id :: "nat option"
  homeTeam :: "string option"
  awayTeam :: "string option"
  homeScore :: int
  awayScore :: int
  date :: game_date
  status :: string
  winner :: "string option"

text \<open>
  \<^verbatim>\<open>[homeTeam, awayTeam].sort()\<close>: the default order compares strings, and puts
  \<open>undefined\<close> last.
\<close>

fun sort_pair :: "string option \<Rightarrow> string option \<Rightarrow> string option list" where
  "sort_pair (Some h) (Some a) = (if a < h then [Some a, Some h] else [Some h, Some a])"
| "sort_pair None (Some a) = [Some a, None]"
| "sort_pair h a = [h, a]"

text \<open>\<^verbatim>\<open>.join('-')\<close>: \<open>undefined\<close> is joined as the empty string.\<close>

fun join_dash :: "string option list \<Rightarrow> string" where
  "join_dash [] = []"
| "join_dash [x] = (case x of None \<Rightarrow> [] | Some s \<Rightarrow> s)"
| "join_dash (x # y # zs) = (case x of None \<Rightarrow> [] | Some s \<Rightarrow> s) @ ''-'' @ join_dash (y # zs)"

definition pairKey :: "string option \<Rightarrow> string option \<Rightarrow> string" where
  "pairKey h a = join_dash (sort_pair h a)"

text \<open>
  One pass through the body of the \<^verbatim>\<open>do ... while\<close> loop: draw the home team, draw
  the away team among the others, build the key.
\<close>

definition pick_pair ::
  "string list \<Rightarrow> rng \<Rightarrow> string option \<times> string option \<times> string \<times> rng" where
  "pick_pair teams g =
     (let (h, g1) = getRandomElement teams g;
          (a, g2) = getRandomElement (filter (\<lambda>t. Some t \<noteq> h) teams) g1
      in (h, a, pairKey h a, g2))"

text \<open>
  The \<^verbatim>\<open>do ... while (usedPairs.has(pairKey))\<close> loop. It may run forever, so it carries
  fuel: \<open>None\<close> is "no fresh pair within \<open>fuel\<close> attempts".
\<close>

fun draw_pair ::
  "nat \<Rightarrow> string list \<Rightarrow> string set \<Rightarrow> rng
     \<Rightarrow> (string option \<times> string option \<times> string \<times> rng) option" where
  "draw_pair 0 teams usedPairs g = None"
| "draw_pair (Suc fuel) teams usedPairs g =
     (case pick_pair teams g of (h, a, k, g2) \<Rightarrow>
        if k \<in> usedPairs then draw_pair fuel teams usedPairs g2 else Some (h, a, k, g2))"

text \<open>
  The body of the \<^verbatim>\<open>for\<close> loop after a fresh pair was found, and the loop itself:
  \<open>n\<close> iterations remain, \<open>i\<close> is the loop index.
\<close>

definition make_game :: "nat \<Rightarrow> string option \<Rightarrow> string option \<Rightarrow> rng \<Rightarrow> game \<times> rng" where
  "make_game i h a g =
     (let (hs, g1) = getRandomInt 80 130 g;
          (as, g2) = getRandomInt 80 130 g1;
          (d, g3) = getRandomInt 0 7 g2
      in (\<lparr> game_id = Some (i + 1), homeTeam = h, awayTeam = a, homeScore = hs,
            awayScore = as, date = DaysAgo d, status = ''final'',
            winner = (if hs > as then h else a) \<rparr>, g3))"

fun games_loop ::
  "nat \<Rightarrow> string list \<Rightarrow> nat \<Rightarrow> nat \<Rightarrow> string set \<Rightarrow> game list \<Rightarrow> rng
     \<Rightarrow> (game list \<times> rng) option" where
  "games_loop fuel teams 0 i usedPairs games g = Some (games, g)"
| "games_loop fuel teams (Suc n) i usedPairs games g =
     (case draw_pair fuel teams usedPairs g of
        None \<Rightarrow> None
      | Some (h, a, k, g1) \<Rightarrow>
          (let (gm, g2) = make_game i h a g1
           in games_loop fuel teams n (i + 1) (insert k usedPairs) (games @ [gm]) g2))"

definition generateMockGames ::
  "nat \<Rightarrow> string list \<Rightarrow> nat \<Rightarrow> rng \<Rightarrow> (game list \<times> rng) option" where
  "generateMockGames fuel teams count g = games_loop fuel teams count 0 {} [] g"

text \<open>
  The keys that the loop can add to \<open>usedPairs\<close> when every draw finds a team: the keys of
  the pairs of two different names of the roster. Two different unordered pairs can have
  the same key (\<open>a-b\<close> with \<open>c\<close>, and \<open>a\<close> with \<open>b-c\<close>), so there may be fewer keys than
  unordered pairs.
\<close>

definition pair_keys :: "string list \<Rightarrow> string set" where
  "pair_keys teams =
     set (map (\<lambda>(x, y). pairKey (Some x) (Some y))
            (filter (\<lambda>(x, y). x \<noteq> y) (List.product teams teams)))"

text \<open>
  The retry loop ends only if the source draws a fresh pair at some pass. \<open>Math.random\<close>
  is taken to be a source that keeps drawing every pair: from every position on, each key
  of the roster is drawn again at some later pass of the loop (a pass reads two draws).
  Independent uniform draws have this property with probability one. \<open>advance n g\<close> is
  the source \<open>g\<close> after \<open>n\<close> draws.
\<close>

definition advance :: "nat \<Rightarrow> rng \<Rightarrow> rng" where
  "advance n g = (\<lambda>i. g (n + i))"

definition keeps_drawing :: "string list \<Rightarrow> rng \<Rightarrow> bool" where
  "keeps_drawing teams g \<longleftrightarrow>
     (\<forall>n. \<forall>k \<in> pair_keys teams.
        \<exists>m. fst (snd (snd (pick_pair teams (advance (n + 2 * m) g)))) = k)"

text \<open>
  A source of this kind: it runs through the \<open>n * n\<close> pairs of draws \<open>(i / n, j / n)\<close> and
  one more draw, again and again; the period is odd, so every pair comes up at every
  position of the loop.
\<close>

definition round_robin :: "nat \<Rightarrow> rng" where
  "round_robin n =
     (\<lambda>i. let j = i mod (2 * n * n + 1)
          in if j = 2 * n * n then 0
             else if even j then of_nat (j div 2 div n) / of_nat n
             else of_nat (j div 2 mod n) / of_nat n)"

subsection \<open>Numbers\<close>

text \<open>
  A JavaScript number is an IEEE-754 double. A finite double is the rational it denotes;
  the three special values are separate constructors. \<open>fl\<close> rounds a rational to the
  nearest double (53-bit significand, ties to even). It is exact for magnitudes from
  \<open>2\<^sup>-\<^sup>1\<^sup>0\<^sup>2\<^sup>2\<close> up to the overflow threshold; no quotient or sum of the integers handled
  here leaves that range. Integer arithmetic on the results of \<open>getRandomInt\<close> is exact.
\<close>

datatype number = Num rat | NaN | PosInf | NegInf

definition pow2 :: "int \<Rightarrow> rat" where
  "pow2 e = (if 0 \<le> e then 2 ^ nat e else 1 / 2 ^ nat (- e))"

text \<open>The binary exponent \<open>\<lfloor>log\<^sub>2 q\<rfloor>\<close> of a positive rational.\<close>

definition ilog2 :: "rat \<Rightarrow> int" where
  "ilog2 q = (if 1 \<le> q then bitlen \<lfloor>q\<rfloor> - 1 else - bitlen (\<lceil>1 / q\<rceil> - 1))"

definition round_half_even :: "rat \<Rightarrow> int" where
  "round_half_even x =
     (let f = \<lfloor>x\<rfloor>; r = x - of_int f
      in if r < 1 / 2 then f else if 1 / 2 < r then f + 1 else if even f then f else f + 1)"

definition fl :: "rat \<Rightarrow> rat" where
  "fl q = (if q = 0 then 0
           else let u = pow2 (ilog2 \<bar>q\<bar> - 52)
                in sgn q * of_int (round_half_even (\<bar>q\<bar> / u)) * u)"

text \<open>Division of finite doubles.\<close>

definition js_div :: "rat \<Rightarrow> rat \<Rightarrow> number" where
  "js_div a b =
     (if b = 0 then (if a = 0 then NaN else if 0 < a then PosInf else NegInf)
      else Num (fl (a / b)))"

text \<open>
  Arithmetic on a property that may be missing: \<open>undefined\<close> converts to \<open>NaN\<close>, the \<open>None\<close>
  of the sum.
\<close>

definition opt_add :: "nat option \<Rightarrow> nat option \<Rightarrow> rat option" where
  "opt_add a b =
     (case (a, b) of (Some x, Some y) \<Rightarrow> Some (fl (of_nat x + of_nat y)) | _ \<Rightarrow> None)"

definition opt_div :: "nat option \<Rightarrow> rat option \<Rightarrow> number" where
  "opt_div a b = (case (a, b) of (Some x, Some t) \<Rightarrow> js_div (of_nat x) t | _ \<Rightarrow> NaN)"

text \<open>\<open>x || 0\<close> on a number: \<open>NaN\<close> and zero are falsy.\<close>

definition or_zero :: "number \<Rightarrow> number" where
  "or_zero x = (case x of NaN \<Rightarrow> Num 0 | _ \<Rightarrow> x)"

subsection \<open>Numbers as strings\<close>

definition digit_char :: "nat \<Rightarrow> char" where
  "digit_char d = ''0123456789'' ! d"

fun nat_digits :: "nat \<Rightarrow> string" where
  "nat_digits n =
     (if n < 10 then [digit_char n] else nat_digits (n div 10) @ [digit_char (n mod 10)])"

definition show_int :: "int \<Rightarrow> string" where
  "show_int i = (if i < 0 then ''-'' @ nat_digits (nat (- i)) else nat_digits (nat i))"

text \<open>
  \<^verbatim>\<open>x.toFixed(3)\<close> for a finite \<open>x \<ge> 0\<close> below \<open>10\<^sup>2\<^sup>1\<close>: take the integer \<open>n\<close> for which
  \<open>n / 1000 - x\<close> is closest to zero, the larger one of two; write its decimal digits,
  padded on the left with zeros to four digits at least; put the point before the last
  three.
\<close>

definition fixed3 :: "rat \<Rightarrow> string" where
  "fixed3 x =
     (let n = nat \<lfloor>x * 1000 + 1 / 2\<rfloor>;
          m = nat_digits n;
          m' = replicate (4 - length m) CHR ''0'' @ m;
          k = length m'
      in take (k - 3) m' @ ''.'' @ drop (k - 3) m')"

definition toFixed3 :: "number \<Rightarrow> string" where
  "toFixed3 x =
     (case x of
        Num q \<Rightarrow> if q < 0 then ''-'' @ fixed3 (- q) else fixed3 q
      | NaN \<Rightarrow> ''NaN''
      | PosInf \<Rightarrow> ''Infinity''
      | NegInf \<Rightarrow> ''-Infinity'')"

text \<open>
  Reading a decimal numeral \<open>digits.digits\<close>. \<open>decimal_value\<close> is the rational that the
  numeral denotes; \<open>parseFloat\<close> rounds it to a double. On the strings that \<open>toFixed\<close>
  produces this is \<^verbatim>\<open>parseFloat\<close>; any other string reads as \<open>NaN\<close> here.
\<close>

definition digit_val :: "char \<Rightarrow> nat option" where
  "digit_val c = map_of (zip ''0123456789'' [0 ..< 10]) c"

fun digits_val :: "string \<Rightarrow> nat \<Rightarrow> nat option" where
  "digits_val [] acc = Some acc"
| "digits_val (c # cs) acc =
     (case digit_val c of None \<Rightarrow> None | Some d \<Rightarrow> digits_val cs (10 * acc + d))"

definition decimal_value :: "string \<Rightarrow> rat option" where
  "decimal_value s =
     (let ip = takeWhile (\<lambda>c. c \<noteq> CHR ''.'') s;
          fp = drop 1 (dropWhile (\<lambda>c. c \<noteq> CHR ''.'') s)
      in if ip = [] \<or> fp = [] then None
         else case (digits_val ip 0, digits_val fp 0) of
                (Some i, Some f) \<Rightarrow> Some (of_nat i + of_nat f / 10 ^ length fp)
              | _ \<Rightarrow> None)"

definition parseFloat :: "string \<Rightarrow> number" where
  "parseFloat s =
     (if s = ''Infinity'' then PosInf
      else if s = ''-Infinity'' then NegInf
      else case s of
             CHR ''-'' # t \<Rightarrow> (case decimal_value t of None \<Rightarrow> NaN | Some v \<Rightarrow> Num (fl (- v)))
           | _ \<Rightarrow> (case decimal_value s of None \<Rightarrow> NaN | Some v \<Rightarrow> Num (fl v)))"





subsection \<open>utils.js: calculateWinPercentage\<close>


subsection \<open>api.js: generateMockTeams\<close>

text \<open>
  A team standing, as \<open>generateMockTeams\<close> and the transform of the real response build it.
  \<open>team_id\<close> and \<open>name\<close> can be \<open>undefined\<close> and \<open>gamesPlayed\<close> can be \<open>NaN\<close> in a record
  built from a response that lacks the fields.
\<close>

record team =
  team_id :: "nat option"
  name :: "string option"
  wins :: int
  losses :: int
  winPct :: number
  streak :: string
  points :: int
  gamesPlayed :: number

definition make_team :: "nat \<Rightarrow> string \<Rightarrow> rng \<Rightarrow> team \<times> rng" where
  "make_team index nm g =
     (let (w, g1) = getRandomInt 5 45 g;
          (l, g2) = getRandomInt 5 45 g1;
          total = w + l;
          pct = toFixed3 (js_div (of_int w) (of_int total));
          (sk, g3) = getRandomInt 1 8 g2;
          (r, g4) = random g3;
          streakType = (if r > 1 / 2 then ''W'' else ''L'');
          (pts, g5) = getRandomInt 80 120 g4
      in (\<lparr> team_id = Some (index + 1), name = Some nm, wins = w, losses = l,
            winPct = parseFloat pct, streak = streakType @ show_int sk, points = pts,
            gamesPlayed = Num (of_int total) \<rparr>, g5))"

text \<open>\<^verbatim>\<open>teams.map((name, index) => ...)\<close>, from index \<open>i\<close> on.\<close>

fun mock_teams_from :: "nat \<Rightarrow> string list \<Rightarrow> rng \<Rightarrow> team list \<times> rng" where
  "mock_teams_from i [] g = ([], g)"
| "mock_teams_from i (nm # nms) g =
     (let (t, g1) = make_team i nm g;
          (ts, g2) = mock_teams_from (i + 1) nms g1
      in (t # ts, g2))"

definition generateMockTeams :: "string list \<Rightarrow> rng \<Rightarrow> team list \<times> rng" where
  "generateMockTeams teams g = mock_teams_from 0 teams g"

subsection \<open>config-public.js and the configuration template\<close>

record api_config =
  API_KEY :: "string option"
  BASE_URL :: string
  SEASON :: string
  LEAGUES :: "(string \<times> string) list"
  timeout :: nat
  retries :: nat
  format :: string

definition config_public :: api_config where
  "config_public =
     \<lparr> API_KEY = None,
       BASE_URL = ''https://api.mysportsfeeds.com/v2.1/pull'',
       SEASON = ''2024-2025-regular'',
       LEAGUES = [(''NBA'', ''nba''), (''NFL'', ''nfl''), (''MLB'', ''mlb''), (''NHL'', ''nhl'')],
       timeout = 10000, retries = 3, format = ''json'' \<rparr>"

definition config_template :: api_config where
  "config_template = config_public \<lparr> API_KEY := Some ''YOUR_MYSPORTSFEEDS_API_KEY_HERE'' \<rparr>"

definition isAPIConfigured :: "api_config \<Rightarrow> bool" where
  "isAPIConfigured cfg \<longleftrightarrow>
     (case API_KEY cfg of
        None \<Rightarrow> False
      | Some k \<Rightarrow> k \<noteq> [] \<and> k \<noteq> ''YOUR_API_KEY_HERE'' \<and> k \<noteq> ''YOUR_MYSPORTSFEEDS_API_KEY_HERE'')"

subsection \<open>api.js: errors, the league argument, the HTTP request\<close>

datatype js_error = Error string | TypeError string | SyntaxError string

fun message :: "js_error \<Rightarrow> string" where
  "message (Error m) = m"
| "message (TypeError m) = m"
| "message (SyntaxError m) = m"

text \<open>
  The \<open>league\<close> argument as the caller may pass it: left out, a string, or \<open>null\<close> (which
  stands for every value that has no string methods). A parameter left out takes the
  default \<^verbatim>\<open>'nba'\<close>.
\<close>

datatype arg = ArgUndefined | ArgNull | ArgString string

definition default_league :: "arg \<Rightarrow> arg" where
  "default_league a = (case a of ArgUndefined \<Rightarrow> ArgString ''nba'' | _ \<Rightarrow> a)"

definition lower_char :: "char \<Rightarrow> char" where
  "lower_char c =
     (case map_of (zip ''ABCDEFGHIJKLMNOPQRSTUVWXYZ'' ''abcdefghijklmnopqrstuvwxyz'') c of
        None \<Rightarrow> c | Some d \<Rightarrow> d)"

definition upper_char :: "char \<Rightarrow> char" where
  "upper_char c =
     (case map_of (zip ''abcdefghijklmnopqrstuvwxyz'' ''ABCDEFGHIJKLMNOPQRSTUVWXYZ'') c of
        None \<Rightarrow> c | Some d \<Rightarrow> d)"

text \<open>
  \<^verbatim>\<open>league.toLowerCase()\<close> and \<^verbatim>\<open>league.toUpperCase()\<close>, on ASCII letters; on a value
  without the method the call throws a \<open>TypeError\<close>.
\<close>

definition toLowerCase :: "arg \<Rightarrow> js_error + string" where
  "toLowerCase a =
     (case a of ArgString s \<Rightarrow> Inr (map lower_char s)
      | _ \<Rightarrow> Inl (TypeError ''league.toLowerCase is not a function''))"

definition toUpperCase :: "arg \<Rightarrow> js_error + string" where
  "toUpperCase a =
     (case a of ArgString s \<Rightarrow> Inr (map upper_char s)
      | _ \<Rightarrow> Inl (TypeError ''league.toUpperCase is not a function''))"

text \<open>The value in a template literal.\<close>

definition arg_text :: "arg \<Rightarrow> string" where
  "arg_text a = (case a of ArgString s \<Rightarrow> s | ArgNull \<Rightarrow> ''null'' | ArgUndefined \<Rightarrow> ''undefined'')"

text \<open>
  What the network does with a request: it fails, or it answers with a status, a status
  text and a body; the body parses as JSON to a payload or does not parse (\<open>None\<close>).
\<close>

datatype 'd http = NetworkFailure js_error | HttpResponse nat string "'d option"

type_synonym 'd network = "string \<Rightarrow> 'd http"

definition fetchFromMySportsFeeds ::
  "api_config \<Rightarrow> 'd network \<Rightarrow> string \<Rightarrow> arg \<Rightarrow> js_error + 'd" where
  "fetchFromMySportsFeeds cfg net endpoint league =
     (let url = BASE_URL cfg @ ''/'' @ arg_text league @ ''/'' @ SEASON cfg @ ''/'' @ endpoint
                  @ ''.json''
      in case net url of
           NetworkFailure e \<Rightarrow> Inl e
         | HttpResponse st statusText body \<Rightarrow>
             if \<not> (200 \<le> st \<and> st \<le> 299)
             then Inl (Error (''API Error: '' @ nat_digits st @ '' '' @ statusText))
             else (case body of
                     None \<Rightarrow> Inl (SyntaxError ''Unexpected token in JSON'')
                   | Some d \<Rightarrow> Inr d))"

text \<open>
  \<open>simulateNetworkDelay\<close> draws the delay; the wait itself has no effect on the result.
\<close>

definition simulateNetworkDelay :: "int \<Rightarrow> int \<Rightarrow> rng \<Rightarrow> rng" where
  "simulateNetworkDelay minMs maxMs g = snd (getRandomInt minMs maxMs g)"

text \<open>The \<^verbatim>\<open>switch (league.toLowerCase())\<close> of both mock paths.\<close>

definition select_teams :: "string \<Rightarrow> string list" where
  "select_teams l =
     (if l = ''nba'' then NBA_TEAMS
      else if l = ''nfl'' then NFL_TEAMS
      else if l = ''mlb'' then MLB_TEAMS
      else if l = ''epl'' then EPL_TEAMS
      else NBA_TEAMS)"

text \<open>
  The labelled result of a fetch. The wall-clock \<open>timestamp\<close> field is left out; the
  result of \<open>fetchDashboardStats\<close> has no \<open>source\<close> property.
\<close>

record 'a api_result =
  success :: bool
  data :: 'a
  league :: string
  source :: "string option"

subsection \<open>api.js: fetchStandings\<close>

text \<open>
  The payload of the standings endpoint, as far as the transform reads it. Every property
  may be missing.
\<close>

record raw_team =
  raw_id :: "nat option"
  team_abbreviation :: "string option"
  team_city :: "string option"

record raw_stats =
  raw_wins :: "nat option"
  raw_losses :: "nat option"
  raw_streak :: "string option"
  pointsFor :: "nat option"
  raw_gamesPlayed :: "nat option"

record raw_standing =
  standing_team :: "raw_team option"
  standing_stats :: "raw_stats option"

record standings_payload =
  payload_standings :: "raw_standing list option"

text \<open>\<open>a || b\<close> on strings and on counts: the empty string and zero are falsy.\<close>

definition str_or :: "string option \<Rightarrow> string option \<Rightarrow> string option" where
  "str_or a b = (case a of Some (c # cs) \<Rightarrow> a | _ \<Rightarrow> b)"

definition nat_or_zero :: "nat option \<Rightarrow> int" where
  "nat_or_zero a = (case a of None \<Rightarrow> 0 | Some n \<Rightarrow> int n)"

definition transform_standing :: "raw_standing \<Rightarrow> rng \<Rightarrow> (js_error + team) \<times> rng" where
  "transform_standing standing g =
     (case standing_team standing of
        None \<Rightarrow> (Inl (TypeError ''Cannot read properties of undefined (reading id)''), g)
      | Some tm \<Rightarrow>
          (case standing_stats standing of
             None \<Rightarrow> (Inl (TypeError ''Cannot read properties of undefined (reading wins)''), g)
           | Some st \<Rightarrow>
               (let total = opt_add (raw_wins st) (raw_losses st);
                    pct = or_zero (parseFloat (toFixed3 (opt_div (raw_wins st) total)));
                    sk = (case str_or (raw_streak st) (Some ''N/A'') of
                            None \<Rightarrow> ''N/A'' | Some x \<Rightarrow> x);
                    (pts, g1) = (case pointsFor st of
                                   None \<Rightarrow> getRandomInt 80 120 g
                                 | Some p \<Rightarrow> if p = 0 then getRandomInt 80 120 g else (int p, g));
                    gp = (case raw_gamesPlayed st of
                            None \<Rightarrow> (case total of None \<Rightarrow> NaN | Some t \<Rightarrow> Num t)
                          | Some n \<Rightarrow>
                              if n = 0 then (case total of None \<Rightarrow> NaN | Some t \<Rightarrow> Num t)
                              else Num (of_nat n))
                in (Inr \<lparr> team_id = raw_id tm,
                          name = str_or (team_abbreviation tm) (team_city tm),
                          wins = nat_or_zero (raw_wins st),
                          losses = nat_or_zero (raw_losses st),
                          winPct = pct, streak = sk, points = pts, gamesPlayed = gp \<rparr>, g1))))"

text \<open>\<^verbatim>\<open>data.standings.map(...)\<close>: the first element that throws ends the map.\<close>

fun transform_standings :: "raw_standing list \<Rightarrow> rng \<Rightarrow> (js_error + team list) \<times> rng" where
  "transform_standings [] g = (Inr [], g)"
| "transform_standings (x # xs) g =
     (case transform_standing x g of
        (Inl e, g1) \<Rightarrow> (Inl e, g1)
      | (Inr t, g1) \<Rightarrow>
          (case transform_standings xs g1 of
             (Inl e, g2) \<Rightarrow> (Inl e, g2)
           | (Inr ts, g2) \<Rightarrow> (Inr (t # ts), g2)))"

text \<open>The body of the inner \<^verbatim>\<open>try\<close> block.\<close>

definition real_standings ::
  "api_config \<Rightarrow> standings_payload network \<Rightarrow> arg \<Rightarrow> rng
     \<Rightarrow> (js_error + team list api_result) \<times> rng" where
  "real_standings cfg net lg g =
     (case fetchFromMySportsFeeds cfg net ''standings'' lg of
        Inl e \<Rightarrow> (Inl e, g)
      | Inr d \<Rightarrow>
          (case payload_standings d of
             None \<Rightarrow> (Inl (TypeError ''Cannot read properties of undefined (reading map)''), g)
           | Some sts \<Rightarrow>
               (case transform_standings sts g of
                  (Inl e, g1) \<Rightarrow> (Inl e, g1)
                | (Inr ts, g1) \<Rightarrow>
                    (case toUpperCase lg of
                       Inl e \<Rightarrow> (Inl e, g1)
                     | Inr L \<Rightarrow>
                         (Inr \<lparr> success = True, data = ts, league = L,
                                source = Some ''MySportsFeeds'' \<rparr>, g1)))))"

text \<open>The mock path, after the inner block was skipped or has thrown.\<close>

definition mock_standings :: "arg \<Rightarrow> rng \<Rightarrow> (js_error + team list api_result) \<times> rng" where
  "mock_standings lg g =
     (let g1 = simulateNetworkDelay 300 800 g
      in case toLowerCase lg of
           Inl e \<Rightarrow> (Inl e, g1)
         | Inr l \<Rightarrow>
             (let (ts, g2) = generateMockTeams (select_teams l) g1
              in case toUpperCase lg of
                   Inl e \<Rightarrow> (Inl e, g2)
                 | Inr L \<Rightarrow>
                     (Inr \<lparr> success = True, data = ts, league = L,
                            source = Some ''Mock Data'' \<rparr>, g2)))"

text \<open>
  \<open>fetchStandings\<close>: the inner \<^verbatim>\<open>catch\<close> only logs, so a failure of the inner block falls
  through to the mock path; the outer \<^verbatim>\<open>catch\<close> logs and rethrows.
\<close>

definition fetchStandings ::
  "api_config \<Rightarrow> standings_payload network \<Rightarrow> arg \<Rightarrow> rng
     \<Rightarrow> (js_error + team list api_result) \<times> rng" where
  "fetchStandings cfg net lg0 g =
     (let lg = default_league lg0
      in if isAPIConfigured cfg
         then (case real_standings cfg net lg g of
                 (Inr res, g1) \<Rightarrow> (Inr res, g1)
               | (Inl apiError, g1) \<Rightarrow> mock_standings lg g1)
         else mock_standings lg g)"

subsection \<open>api.js: fetchRecentGames\<close>

record raw_schedule =
  schedule_id :: "nat option"
  schedule_homeTeam :: "raw_team option"
  schedule_awayTeam :: "raw_team option"
  startTime :: "string option"
  playedStatus :: "string option"

record raw_score =
  homeScoreTotal :: "nat option"
  awayScoreTotal :: "nat option"

record raw_game =
  game_schedule :: "raw_schedule option"
  game_score :: "raw_score option"

record games_payload =
  payload_games :: "raw_game list option"

text \<open>\<open>a > b\<close> on two counts that may be \<open>undefined\<close>: false unless both are numbers.\<close>

definition opt_gt :: "nat option \<Rightarrow> nat option \<Rightarrow> bool" where
  "opt_gt a b = (case (a, b) of (Some x, Some y) \<Rightarrow> y < x | _ \<Rightarrow> False)"

definition transform_game :: "raw_game \<Rightarrow> js_error + game" where
  "transform_game gm =
     (case game_schedule gm of
        None \<Rightarrow> Inl (TypeError ''Cannot read properties of undefined (reading id)'')
      | Some sch \<Rightarrow>
          (case schedule_homeTeam sch of
             None \<Rightarrow> Inl (TypeError ''Cannot read properties of undefined (reading abbreviation)'')
           | Some ht \<Rightarrow>
               (case schedule_awayTeam sch of
                  None \<Rightarrow>
                    Inl (TypeError ''Cannot read properties of undefined (reading abbreviation)'')
                | Some aw \<Rightarrow>
                    (let hst = (case game_score gm of None \<Rightarrow> None | Some sc \<Rightarrow> homeScoreTotal sc);
                         ast = (case game_score gm of None \<Rightarrow> None | Some sc \<Rightarrow> awayScoreTotal sc)
                     in Inr \<lparr> game_id = schedule_id sch,
                              homeTeam = str_or (team_abbreviation ht) (team_city ht),
                              awayTeam = str_or (team_abbreviation aw) (team_city aw),
                              homeScore = nat_or_zero hst,
                              awayScore = nat_or_zero ast,
                              date = StartTime (startTime sch),
                              status = (if playedStatus sch = Some ''COMPLETED'' then ''final''
                                        else ''scheduled''),
                              winner = (if opt_gt hst ast then team_abbreviation ht
                                        else team_abbreviation aw) \<rparr>))))"

fun transform_games :: "raw_game list \<Rightarrow> js_error + game list" where
  "transform_games [] = Inr []"
| "transform_games (x # xs) =
     (case transform_game x of
        Inl e \<Rightarrow> Inl e
      | Inr gm \<Rightarrow> (case transform_games xs of Inl e \<Rightarrow> Inl e | Inr gms \<Rightarrow> Inr (gm # gms)))"

definition real_games ::
  "api_config \<Rightarrow> games_payload network \<Rightarrow> arg \<Rightarrow> js_error + game list api_result" where
  "real_games cfg net lg =
     (case fetchFromMySportsFeeds cfg net ''games'' lg of
        Inl e \<Rightarrow> Inl e
      | Inr d \<Rightarrow>
          (case payload_games d of
             None \<Rightarrow> Inl (TypeError ''Cannot read properties of undefined (reading slice)'')
           | Some gms \<Rightarrow>
               (case transform_games (take 6 gms) of
                  Inl e \<Rightarrow> Inl e
                | Inr gs \<Rightarrow>
                    (case toUpperCase lg of
                       Inl e \<Rightarrow> Inl e
                     | Inr L \<Rightarrow>
                         Inr \<lparr> success = True, data = gs, league = L,
                               source = Some ''MySportsFeeds'' \<rparr>))))"

text \<open>The mock path; \<open>None\<close> when \<open>generateMockGames\<close> does not return.\<close>

definition mock_games ::
  "nat \<Rightarrow> arg \<Rightarrow> rng \<Rightarrow> ((js_error + game list api_result) \<times> rng) option" where
  "mock_games fuel lg g =
     (let g1 = simulateNetworkDelay 300 800 g
      in case toLowerCase lg of
           Inl e \<Rightarrow> Some (Inl e, g1)
         | Inr l \<Rightarrow>
             (case generateMockGames fuel (select_teams l) 6 g1 of
                None \<Rightarrow> None
              | Some (gs, g2) \<Rightarrow>
                  (case toUpperCase lg of
                     Inl e \<Rightarrow> Some (Inl e, g2)
                   | Inr L \<Rightarrow>
                       Some (Inr \<lparr> success = True, data = gs, league = L,
                                   source = Some ''Mock Data'' \<rparr>, g2))))"

definition fetchRecentGames ::
  "nat \<Rightarrow> api_config \<Rightarrow> games_payload network \<Rightarrow> arg \<Rightarrow> rng
     \<Rightarrow> ((js_error + game list api_result) \<times> rng) option" where
  "fetchRecentGames fuel cfg net lg0 g =
     (let lg = default_league lg0
      in if isAPIConfigured cfg
         then (case real_games cfg net lg of
                 Inr res \<Rightarrow> Some (Inr res, g)
               | Inl apiError \<Rightarrow> mock_games fuel lg g)
         else mock_games fuel lg g)"

subsection \<open>api.js: fetchDashboardStats\<close>

record dashboard_stats =
  totalTeams :: nat
  gamesToday :: int
  topScorer :: "string option"
  avgScore :: int

definition fetchDashboardStats ::
  "arg \<Rightarrow> rng \<Rightarrow> (js_error + dashboard_stats api_result) \<times> rng" where
  "fetchDashboardStats lg0 g =
     (let lg = default_league lg0;
          g1 = simulateNetworkDelay 200 500 g;
          (gt, g2) = getRandomInt 3 8 g1;
          (ts, g3) = getRandomElement
             [''LeBron James'', ''Stephen Curry'', ''Kevin Durant'', ''Giannis Antetokounmpo''] g2;
          (av, g4) = getRandomInt 105 115 g3
      in case toUpperCase lg of
           Inl e \<Rightarrow> (Inl e, g4)
         | Inr L \<Rightarrow>
             (Inr \<lparr> success = True,
                    data = \<lparr> totalTeams = 12, gamesToday = gt, topScorer = ts, avgScore = av \<rparr>,
                    league = L, source = None \<rparr>, g4))"

subsection \<open>api.js: fetchAllData\<close>

text \<open>
  \<^verbatim>\<open>Promise.all\<close> over the three requests. Each request is started at once and settles at
  its own time: it fulfils, it rejects, or its code never returns (then nothing that is
  due later runs). \<^verbatim>\<open>Promise.all\<close> fulfils when all three have fulfilled, and rejects
  with the reason of the first rejection. \<open>earliest\<close> finds, among the requests that do
  not fulfil, the one that is due first; \<open>promise_all\<close> is how the combined promise
  settles.
\<close>

datatype settled = Fulfilled | Rejected js_error | Hangs

definition status_of :: "(js_error + 'a) option \<Rightarrow> settled" where
  "status_of r = (case r of None \<Rightarrow> Hangs | Some (Inl e) \<Rightarrow> Rejected e | Some (Inr v) \<Rightarrow> Fulfilled)"

fun earliest :: "(nat \<times> settled) list \<Rightarrow> (nat \<times> settled) option" where
  "earliest [] = None"
| "earliest ((t, s) # r) =
     (if s = Fulfilled then earliest r
      else case earliest r of
             None \<Rightarrow> Some (t, s)
           | Some (t', s') \<Rightarrow> if t' < t then Some (t', s') else Some (t, s))"

definition promise_all :: "(nat \<times> settled) list \<Rightarrow> settled" where
  "promise_all ps = (case earliest ps of None \<Rightarrow> Fulfilled | Some (t, s) \<Rightarrow> s)"

record all_data =
  all_success :: bool
  all_standings :: "team list"
  all_games :: "game list"
  all_stats :: dashboard_stats
  all_league :: string

text \<open>
  The environment of one call: the configuration, the network for each endpoint, the time
  at which each request settles, the fuel of the mock game loop, and the random draws that
  each request sees (the three requests interleave their reads of the one global source).
\<close>

record environment =
  config :: api_config
  standings_net :: "standings_payload network"
  games_net :: "games_payload network"
  settle_time :: "nat \<times> nat \<times> nat"
  loop_fuel :: nat
  standings_rng :: rng
  games_rng :: rng
  stats_rng :: rng

text \<open>
  The body of \<open>fetchAllData\<close> from the \<^verbatim>\<open>await\<close> on: \<open>r1\<close>, \<open>r2\<close> and \<open>r3\<close> are what the
  three requests settle with (\<open>None\<close>: the code of the request never returns), \<open>due\<close>
  holds the times at which they do.
\<close>

definition fetchAllData_body ::
  "nat \<times> nat \<times> nat \<Rightarrow> arg \<Rightarrow> (js_error + team list api_result) option
     \<Rightarrow> (js_error + game list api_result) option
     \<Rightarrow> (js_error + dashboard_stats api_result) option \<Rightarrow> (js_error + all_data) option" where
  "fetchAllData_body due lg r1 r2 r3 =
     (let (t1, t2, t3) = due
      in case promise_all [(t1, status_of r1), (t2, status_of r2), (t3, status_of r3)] of
           Hangs \<Rightarrow> None
         | Rejected e \<Rightarrow> Some (Inl e)
         | Fulfilled \<Rightarrow>
             (case (r1, r2, r3) of
                (Some (Inr standings), Some (Inr games), Some (Inr stats)) \<Rightarrow>
                  (case toUpperCase lg of
                     Inl e \<Rightarrow> Some (Inl e)
                   | Inr L \<Rightarrow>
                       Some (Inr \<lparr> all_success = True, all_standings = data standings,
                                   all_games = data games, all_stats = data stats,
                                   all_league = L \<rparr>))
              | _ \<Rightarrow> None))"

definition fetchAllData :: "environment \<Rightarrow> arg \<Rightarrow> (js_error + all_data) option" where
  "fetchAllData env lg0 =
     (let lg = default_league lg0;
          r1 = Some (fst (fetchStandings (config env) (standings_net env) lg (standings_rng env)));
          r2 = map_option fst
                 (fetchRecentGames (loop_fuel env) (config env) (games_net env) lg (games_rng env));
          r3 = Some (fst (fetchDashboardStats lg (stats_rng env)))
      in fetchAllData_body (settle_time env) lg r1 r2 r3)"

subsection \<open>utils.js: sortByProperty\<close>

text \<open>
  An object is the map from its property names to their values; a missing property reads
  \<open>undefined\<close>. The values of the sorted property are of one comparable kind (numbers, or
  strings); \<open>None\<close> stands for a value on which every \<open>>\<close> and \<open><\<close> is false (\<open>undefined\<close>,
  \<open>NaN\<close>).
\<close>

definition js_gt :: "'v::linorder option \<Rightarrow> 'v option \<Rightarrow> bool" where
  "js_gt a b = (case (a, b) of (Some x, Some y) \<Rightarrow> y < x | _ \<Rightarrow> False)"

definition js_lt :: "'v::linorder option \<Rightarrow> 'v option \<Rightarrow> bool" where
  "js_lt a b = (case (a, b) of (Some x, Some y) \<Rightarrow> x < y | _ \<Rightarrow> False)"

text \<open>
  \<^verbatim>\<open>Array.prototype.sort(compare)\<close>: a stable sort that puts \<open>a\<close> before \<open>b\<close> when
  \<open>compare(a, b) \<le> 0\<close>. The language fixes the result only when \<open>compare\<close> is a consistent
  order; then every sort returns the list computed here, by insertion.
\<close>

fun insert_cmp :: "('a \<Rightarrow> 'a \<Rightarrow> int) \<Rightarrow> 'a \<Rightarrow> 'a list \<Rightarrow> 'a list" where
  "insert_cmp cmp x [] = [x]"
| "insert_cmp cmp x (y # ys) = (if cmp x y \<le> 0 then x # y # ys else y # insert_cmp cmp x ys)"

fun js_sort :: "('a \<Rightarrow> 'a \<Rightarrow> int) \<Rightarrow> 'a list \<Rightarrow> 'a list" where
  "js_sort cmp [] = []"
| "js_sort cmp (x # xs) = insert_cmp cmp x (js_sort cmp xs)"

definition sortByProperty ::
  "('k \<Rightarrow> 'v::linorder option) list \<Rightarrow> 'k \<Rightarrow> bool \<Rightarrow> ('k \<Rightarrow> 'v option) list" where
  "sortByProperty array property ascending =
     js_sort (\<lambda>a b. let aVal = a property; bVal = b property
                     in if ascending then (if js_gt aVal bVal then 1 else - 1)
                        else (if js_lt aVal bVal then 1 else - 1)) array"

subsection \<open>ui.js: the loading and error indicators\<close>

text \<open>
  The part of the document that \<open>showLoading\<close>, \<open>hideLoading\<close>, \<open>showError\<close> and
  \<open>hideError\<close> touch. Each function tests that its element exists; \<open>None\<close> is an element
  that the document does not have.
\<close>

record dom =
  loading_hidden :: "bool option"
  error_hidden :: "bool option"
  error_text :: "string option"
  main_opacity :: "string option"

definition showLoading :: "dom \<Rightarrow> dom" where
  "showLoading d =
     d \<lparr> loading_hidden := map_option (\<lambda>_. False) (loading_hidden d),
         error_hidden := map_option (\<lambda>_. True) (error_hidden d),
         main_opacity := map_option (\<lambda>_. ''0.5'') (main_opacity d) \<rparr>"

definition hideLoading :: "dom \<Rightarrow> dom" where
  "hideLoading d =
     d \<lparr> loading_hidden := map_option (\<lambda>_. True) (loading_hidden d),
         main_opacity := map_option (\<lambda>_. ''1'') (main_opacity d) \<rparr>"

definition showError :: "string \<Rightarrow> dom \<Rightarrow> dom" where
  "showError msg d =
     d \<lparr> error_text := map_option (\<lambda>_. msg) (error_text d),
         error_hidden := map_option (\<lambda>_. False) (error_hidden d),
         loading_hidden := map_option (\<lambda>_. True) (loading_hidden d) \<rparr>"

definition hideError :: "dom \<Rightarrow> dom" where
  "hideError d = d \<lparr> error_hidden := map_option (\<lambda>_. True) (error_hidden d) \<rparr>"

subsection \<open>app.js: the application state and loadData\<close>

record state =
  currentLeague :: string
  allData :: "all_data option"
  isLoading :: bool

text \<open>
  JavaScript runs one task at a time. A call of \<open>loadData\<close> runs up to its \<^verbatim>\<open>await\<close>, where
  the request is in flight and other handlers may run; it resumes when the request
  settles. The system is therefore the state, the document, the notifications shown so
  far, and the requests in flight: for each the league it was started with and whether
  \<open>handleRefresh\<close> waits for it to announce success.
\<close>

record system =
  app :: state
  page :: dom
  in_flight :: "(string \<times> bool) list"
  notifications :: "(string \<times> string) list"

definition showNotification :: "string \<Rightarrow> string \<Rightarrow> system \<Rightarrow> system" where
  "showNotification msg type s = s \<lparr> notifications := notifications s @ [(msg, type)] \<rparr>"

text \<open>
  \<open>loadData\<close> up to the \<^verbatim>\<open>await\<close>. \<open>refreshing\<close> tells that the caller is
  \<open>handleRefresh\<close>; when \<open>loadData\<close> returns at once, so does the \<^verbatim>\<open>await\<close> of the caller.
\<close>

definition loadData_begin :: "bool \<Rightarrow> system \<Rightarrow> system" where
  "loadData_begin refreshing s =
     (if isLoading (app s) then s
      else s \<lparr> app := (app s) \<lparr> isLoading := True \<rparr>,
               page := hideError (showLoading (page s)),
               in_flight := in_flight s @ [(currentLeague (app s), refreshing)] \<rparr>)"

text \<open>
  \<open>loadData\<close> from the \<^verbatim>\<open>await\<close> on, for the request at the head of the requests in
  flight: \<open>outcome\<close> is what \<open>fetchAllData\<close> settled with, \<open>render\<close> is the error that
  \<open>updateUI\<close> throws, if any. The \<^verbatim>\<open>finally\<close> block runs on every path.
\<close>

definition loadData_resume :: "js_error + all_data \<Rightarrow> js_error option \<Rightarrow> system \<Rightarrow> system" where
  "loadData_resume outcome render s =
     (let s1 = (case outcome of
                  Inr d \<Rightarrow>
                    (let s' = s \<lparr> app := (app s) \<lparr> allData := Some d \<rparr> \<rparr>
                     in case render of
                          None \<Rightarrow> s' \<lparr> page := hideLoading (page s') \<rparr>
                        | Some e \<Rightarrow>
                            s' \<lparr> page := showError (''Failed to load data: '' @ message e)
                                            (hideLoading (page s')) \<rparr>)
                | Inl e \<Rightarrow>
                    s \<lparr> page := showError (''Failed to load data: '' @ message e)
                                   (hideLoading (page s)) \<rparr>)
      in s1 \<lparr> app := (app s1) \<lparr> isLoading := False \<rparr> \<rparr>)"

text \<open>What can happen to the system.\<close>

datatype event =
    CallLoadData
  | LeagueChange string
  | Refresh
  | Retry
  | Tick
  | Settle "js_error + all_data" "js_error option"

fun step :: "event \<Rightarrow> system \<Rightarrow> system" where
  "step CallLoadData s = loadData_begin False s"
| "step Tick s = loadData_begin False s"
| "step (LeagueChange newLeague) s =
     (if newLeague = currentLeague (app s) then s
      else loadData_begin False
             (showNotification (''Switching to '' @ map upper_char newLeague @ ''...'') ''info''
                (s \<lparr> app := (app s) \<lparr> currentLeague := newLeague \<rparr> \<rparr>)))"
| "step Refresh s =
     (let s1 = showNotification ''Refreshing data...'' ''info'' s
      in if isLoading (app s1)
         then showNotification ''Data refreshed successfully!'' ''success'' (loadData_begin True s1)
         else loadData_begin True s1)"
| "step Retry s = loadData_begin False (s \<lparr> page := hideError (page s) \<rparr>)"
| "step (Settle outcome render) s =
     (case in_flight s of
        [] \<Rightarrow> s
      | (lg, refreshing) # rest \<Rightarrow>
          (let s1 = (loadData_resume outcome render s) \<lparr> in_flight := rest \<rparr>
           in if refreshing
              then showNotification ''Data refreshed successfully!'' ''success'' s1
              else s1))"

definition initial :: "dom \<Rightarrow> system" where
  "initial d =
     \<lparr> app = \<lparr> currentLeague = ''nba'', allData = None, isLoading = False \<rparr>,
       page = d, in_flight = [], notifications = [] \<rparr>"

text \<open>The system after a sequence of events.\<close>

definition run :: "event list \<Rightarrow> system \<Rightarrow> system" where
  "run evs s = fold step evs s"

section \<open>Properties\<close>

subsection \<open>The random source and the drawing of pairs\<close>

lemma random_draws [simp]: "random (draws (x # xs)) = (x, draws xs)" "random (draws []) = (0, draws [])"
  by (auto simp: random_def draws_def fun_eq_iff)

lemma unit_rng_random: "unit_rng g \<Longrightarrow> random g = (r, g') \<Longrightarrow> 0 \<le> r \<and> r < 1 \<and> unit_rng g'"
  by (auto simp: unit_rng_def random_def)

lemma getRandomInt_unit: "unit_rng g \<Longrightarrow> getRandomInt mn mx g = (v, g') \<Longrightarrow> unit_rng g'"
  by (auto simp: getRandomInt_def split: prod.splits dest: unit_rng_random)

lemma getRandomElement_unit: "unit_rng g \<Longrightarrow> getRandomElement xs g = (v, g') \<Longrightarrow> unit_rng g'"
  by (auto simp: getRandomElement_def Let_def split: prod.splits dest: unit_rng_random)

lemma nth_nat_mem: "0 \<le> i \<Longrightarrow> i < int (length xs) \<Longrightarrow> xs ! nat i \<in> set xs"
  by (simp add: nat_less_iff)

lemma getRandomElement_mem: "getRandomElement xs g = (Some x, g') \<Longrightarrow> x \<in> set xs"
  by (auto simp: getRandomElement_def Let_def nth_nat_mem split: prod.splits if_splits)

lemma floor_unit_mult:
  fixes r :: rat
  assumes "0 \<le> r" "r < 1" "0 < n"
  shows "0 \<le> \<lfloor>r * of_nat n\<rfloor> \<and> \<lfloor>r * of_nat n\<rfloor> < int n"
proof -
  have "r * of_nat n < of_nat n" using assms by simp
  then have "\<lfloor>r * of_nat n\<rfloor> < int n"
    by (metis floor_less_iff of_int_of_nat_eq)
  moreover have "0 \<le> r * of_nat n" using assms by simp
  ultimately show ?thesis by simp
qed

lemma getRandomElement_Some:
  "unit_rng g \<Longrightarrow> xs \<noteq> [] \<Longrightarrow> \<exists>x \<in> set xs. fst (getRandomElement xs g) = Some x"
  using floor_unit_mult [of "g 0" "length xs"]
  by (auto simp: getRandomElement_def Let_def random_def unit_rng_def nth_nat_mem split: prod.splits)

lemma pick_pair_props:
  assumes "pick_pair teams g = (h, a, k, g2)"
  shows "k = pairKey h a" "\<And>x. h = Some x \<Longrightarrow> x \<in> set teams"
    "\<And>y. a = Some y \<Longrightarrow> y \<in> set teams \<and> a \<noteq> h"
proof -
  obtain h0 g1 where 1: "getRandomElement teams g = (h0, g1)" by force
  obtain a0 g3 where 2: "getRandomElement (filter (\<lambda>t. Some t \<noteq> h0) teams) g1 = (a0, g3)"
    by force
  from assms 1 2 have eq: "h = h0" "a = a0" "k = pairKey h0 a0" "g2 = g3"
    by (auto simp: pick_pair_def)
  show "k = pairKey h a" using eq by simp
  show "x \<in> set teams" if "h = Some x" for x
    using that eq 1 getRandomElement_mem [of teams g x g1] by simp
  show "y \<in> set teams \<and> a \<noteq> h" if "a = Some y" for y
  proof -
    from that eq 2 have "y \<in> set (filter (\<lambda>t. Some t \<noteq> h0) teams)"
      using getRandomElement_mem [of "filter (\<lambda>t. Some t \<noteq> h0) teams" g1 y g3] by simp
    then show ?thesis using that eq by simp
  qed
qed

lemma pick_pair_unit:
  assumes "pick_pair teams g = (h, a, k, g2)" "unit_rng g"
  shows "unit_rng g2"
    and "teams \<noteq> [] \<Longrightarrow> \<exists>x \<in> set teams. h = Some x"
    and "2 \<le> card (set teams) \<Longrightarrow> \<exists>y \<in> set teams. a = Some y"
proof -
  obtain h0 g1 where 1: "getRandomElement teams g = (h0, g1)" by force
  let ?rest = "filter (\<lambda>t. Some t \<noteq> h0) teams"
  obtain a0 g3 where 2: "getRandomElement ?rest g1 = (a0, g3)"
    by force
  from assms 1 2 have eq: "h = h0" "a = a0" "k = pairKey h0 a0" "g2 = g3"
    by (auto simp: pick_pair_def)
  have u1: "unit_rng g1" using getRandomElement_unit [OF assms(2) 1] .
  show "unit_rng g2" using getRandomElement_unit [OF u1 2] eq by simp
  show "\<exists>x \<in> set teams. h = Some x" if "teams \<noteq> []"
    using getRandomElement_Some [OF assms(2) that] 1 eq by simp
  show "\<exists>y \<in> set teams. a = Some y" if c: "2 \<le> card (set teams)"
  proof -
    have ne: "?rest \<noteq> []"
    proof
      assume "?rest = []"
      then have "\<forall>t \<in> set teams. Some t = h0" by (simp add: filter_empty_conv)
      then have "set teams \<subseteq> {the h0}" by force
      then have "card (set teams) \<le> card {the h0}" by (intro card_mono) simp_all
      with c show False by simp
    qed
    from getRandomElement_Some [OF u1 ne] obtain y where
      y: "y \<in> set ?rest" "fst (getRandomElement ?rest g1) = Some y" by blast
    from y(2) 2 eq have "a = Some y" by simp
    moreover from y(1) have "y \<in> set teams" by simp
    ultimately show ?thesis by blast
  qed
qed

lemma draw_pair_picks:
  "draw_pair fuel teams used g = Some (h, a, k, g1) \<Longrightarrow>
     k \<notin> used \<and> (\<exists>g0. pick_pair teams g0 = (h, a, k, g1) \<and> (unit_rng g \<longrightarrow> unit_rng g0))"
proof (induction fuel arbitrary: g)
  case 0
  then show ?case by simp
next
  case (Suc fuel)
  obtain h0 a0 k0 g2 where p: "pick_pair teams g = (h0, a0, k0, g2)"
    by (cases "pick_pair teams g") auto
  show ?case
  proof (cases "k0 \<in> used")
    case True
    with Suc.prems p have "draw_pair fuel teams used g2 = Some (h, a, k, g1)" by simp
    from Suc.IH [OF this] pick_pair_unit(1) [OF p] show ?thesis by blast
  next
    case False
    with Suc.prems p have "(h0, a0, k0, g2) = (h, a, k, g1)" by simp
    with p False show ?thesis by blast
  qed
qed

lemma draw_pair_props:
  assumes "draw_pair fuel teams used g = Some (h, a, k, g1)"
  shows "k = pairKey h a" "k \<notin> used" "\<And>x. h = Some x \<Longrightarrow> x \<in> set teams"
    "\<And>y. a = Some y \<Longrightarrow> y \<in> set teams \<and> a \<noteq> h"
proof -
  from draw_pair_picks [OF assms] obtain g0 where k: "k \<notin> used"
    and p: "pick_pair teams g0 = (h, a, k, g1)" by blast
  show "k \<notin> used" by (rule k)
  show "k = pairKey h a" by (rule pick_pair_props(1) [OF p])
  show "\<And>x. h = Some x \<Longrightarrow> x \<in> set teams" by (rule pick_pair_props(2) [OF p])
  show "\<And>y. a = Some y \<Longrightarrow> y \<in> set teams \<and> a \<noteq> h" by (rule pick_pair_props(3) [OF p])
qed

lemma draw_pair_unit:
  assumes "draw_pair fuel teams used g = Some (h, a, k, g1)" "unit_rng g"
  shows "unit_rng g1"
    and "teams \<noteq> [] \<Longrightarrow> \<exists>x \<in> set teams. h = Some x"
    and "2 \<le> card (set teams) \<Longrightarrow> \<exists>y \<in> set teams. a = Some y"
proof -
  from draw_pair_picks [OF assms(1)] assms(2) obtain g0 where
    p: "pick_pair teams g0 = (h, a, k, g1)" and u: "unit_rng g0" by blast
  show "unit_rng g1" by (rule pick_pair_unit(1) [OF p u])
  show "teams \<noteq> [] \<Longrightarrow> \<exists>x \<in> set teams. h = Some x" by (rule pick_pair_unit(2) [OF p u])
  show "2 \<le> card (set teams) \<Longrightarrow> \<exists>y \<in> set teams. a = Some y"
    by (rule pick_pair_unit(3) [OF p u])
qed

lemma make_game_eq:
  obtains hs as d g3 where
    "make_game i h a g = (\<lparr> game_id = Some (i + 1), homeTeam = h, awayTeam = a, homeScore = hs,
        awayScore = as, date = DaysAgo d, status = ''final'',
        winner = (if hs > as then h else a) \<rparr>, g3)"
    and "unit_rng g \<Longrightarrow> unit_rng g3"
proof -
  obtain hs g1 where 1: "getRandomInt 80 130 g = (hs, g1)" by force
  obtain as g2 where 2: "getRandomInt 80 130 g1 = (as, g2)" by force
  obtain d g3 where 3: "getRandomInt 0 7 g2 = (d, g3)" by force
  have "unit_rng g3" if "unit_rng g"
    using getRandomInt_unit [OF getRandomInt_unit [OF getRandomInt_unit [OF that 1] 2] 3] .
  moreover have "make_game i h a g = (\<lparr> game_id = Some (i + 1), homeTeam = h, awayTeam = a,
        homeScore = hs, awayScore = as, date = DaysAgo d, status = ''final'',
        winner = (if hs > as then h else a) \<rparr>, g3)"
    by (simp add: make_game_def 1 2 3)
  ultimately show ?thesis using that by blast
qed

lemma make_game_fields:
  "homeTeam (fst (make_game i h a g)) = h"
  "awayTeam (fst (make_game i h a g)) = a"
  "winner (fst (make_game i h a g)) =
     (if homeScore (fst (make_game i h a g)) > awayScore (fst (make_game i h a g)) then h else a)"
  "game_id (fst (make_game i h a g)) = Some (i + 1)"
  by (rule make_game_eq [of i h a g]; simp)+

lemma make_game_unit:
  assumes "unit_rng g"
  shows "unit_rng (snd (make_game i h a g))"
  by (rule make_game_eq [of i h a g]) (use assms in simp)

lemma games_loop_Suc:
  assumes "games_loop fuel teams (Suc n) i used games g = Some (res, g')"
  obtains h a k g1 where "draw_pair fuel teams used g = Some (h, a, k, g1)"
    and "games_loop fuel teams n (i + 1) (insert k used)
           (games @ [fst (make_game i h a g1)]) (snd (make_game i h a g1)) = Some (res, g')"
proof (cases "draw_pair fuel teams used g")
  case None
  with assms show ?thesis by simp
next
  case (Some r)
  obtain h a k g1 where r: "r = (h, a, k, g1)" by (cases r) auto
  with Some assms
  have "games_loop fuel teams n (i + 1) (insert k used)
           (games @ [fst (make_game i h a g1)]) (snd (make_game i h a g1)) = Some (res, g')"
    by (simp add: case_prod_beta)
  with Some r that show ?thesis by blast
qed

lemma games_loop_invariant:
  assumes run: "games_loop fuel teams n i used games g = Some (res, g')"
    and init: "Q g"
    and dp: "\<And>used g h a k g1. Q g \<Longrightarrow> draw_pair fuel teams used g = Some (h, a, k, g1)
               \<Longrightarrow> R h a \<and> Q g1"
    and mg: "\<And>i h a g1. Q g1 \<Longrightarrow> R h a
               \<Longrightarrow> P (fst (make_game i h a g1)) \<and> Q (snd (make_game i h a g1))"
  shows "\<exists>new. res = games @ new \<and> length new = n \<and> list_all P new"
  using run init
proof (induction n arbitrary: i used games g)
  case 0
  then show ?case by simp
next
  case (Suc n)
  from Suc.prems(1) obtain h a k g1 where d: "draw_pair fuel teams used g = Some (h, a, k, g1)"
    and r: "games_loop fuel teams n (i + 1) (insert k used)
           (games @ [fst (make_game i h a g1)]) (snd (make_game i h a g1)) = Some (res, g')"
    by (rule games_loop_Suc)
  from dp [OF Suc.prems(2) d] have R: "R h a" and Q1: "Q g1" by simp_all
  from mg [OF Q1 R, of i] have P: "P (fst (make_game i h a g1))"
    and Q2: "Q (snd (make_game i h a g1))" by simp_all
  from Suc.IH [OF r Q2] obtain new where
    new: "res = (games @ [fst (make_game i h a g1)]) @ new" "length new = n" "list_all P new"
    by blast
  have "res = games @ (fst (make_game i h a g1) # new)" using new(1) by simp
  moreover have "length (fst (make_game i h a g1) # new) = Suc n" using new(2) by simp
  moreover have "list_all P (fst (make_game i h a g1) # new)" using new(3) P by simp
  ultimately show ?case by blast
qed

lemma games_loop_keys:
  assumes "games_loop fuel teams n i used games g = Some (res, g')"
  shows "\<exists>new. res = games @ new \<and>
       distinct (map (\<lambda>gm. pairKey (homeTeam gm) (awayTeam gm)) new) \<and>
       (\<forall>gm \<in> set new. pairKey (homeTeam gm) (awayTeam gm) \<notin> used)"
  using assms
proof (induction n arbitrary: i used games g)
  case 0
  then show ?case by simp
next
  case (Suc n)
  from Suc.prems(1) obtain h a k g1 where d: "draw_pair fuel teams used g = Some (h, a, k, g1)"
    and r: "games_loop fuel teams n (i + 1) (insert k used)
           (games @ [fst (make_game i h a g1)]) (snd (make_game i h a g1)) = Some (res, g')"
    by (rule games_loop_Suc)
  let ?gm = "fst (make_game i h a g1)"
  let ?key = "\<lambda>gm. pairKey (homeTeam gm) (awayTeam gm)"
  note k = draw_pair_props(1,2) [OF d]
  have kg: "?key ?gm = k" by (simp add: make_game_fields k)
  from Suc.IH [OF r] obtain new where new: "res = (games @ [?gm]) @ new"
    "distinct (map ?key new)" "\<forall>gm \<in> set new. ?key gm \<notin> insert k used"
    by blast
  have "res = games @ (?gm # new)" using new(1) by simp
  moreover have "distinct (map ?key (?gm # new))"
    using new(2,3) kg by (auto simp del: insert_iff)
  moreover have "\<forall>gm \<in> set (?gm # new). ?key gm \<notin> used"
    using new(3) kg k(2) by simp
  ultimately show ?case by blast
qed


lemma unit_rng_draws: "\<forall>x \<in> set xs. 0 \<le> x \<and> x < 1 \<Longrightarrow> unit_rng (draws xs)"
  by (simp add: unit_rng_def draws_def)

lemma games_loop_teams:
  assumes "games_loop fuel teams n i used games g = Some (res, g')"
  shows "\<exists>new. res = games @ new \<and> length new = n \<and>
    list_all (\<lambda>gm. winner gm = (if homeScore gm > awayScore gm then homeTeam gm else awayTeam gm)
        \<and> (\<forall>y. awayTeam gm = Some y \<longrightarrow> awayTeam gm \<noteq> homeTeam gm)) new"
proof (rule games_loop_invariant [OF assms, where Q = "\<lambda>_. True"
      and R = "\<lambda>h a. \<forall>y. a = Some y \<longrightarrow> a \<noteq> h"])
  show True ..
next
  fix used g h a k g1
  assume "draw_pair fuel teams used g = Some (h, a, k, g1)"
  from draw_pair_props(4) [OF this] show "(\<forall>y. a = Some y \<longrightarrow> a \<noteq> h) \<and> True" by simp
next
  fix i and h a :: "string option" and g1
  assume "\<forall>y. a = Some y \<longrightarrow> a \<noteq> h"
  then show "(winner (fst (make_game i h a g1)) =
         (if awayScore (fst (make_game i h a g1)) < homeScore (fst (make_game i h a g1))
          then homeTeam (fst (make_game i h a g1)) else awayTeam (fst (make_game i h a g1))) \<and>
         (\<forall>y. awayTeam (fst (make_game i h a g1)) = Some y \<longrightarrow>
              awayTeam (fst (make_game i h a g1)) \<noteq> homeTeam (fst (make_game i h a g1)))) \<and> True"
    by (simp add: make_game_fields)
qed

lemma games_loop_named:
  assumes "games_loop fuel teams n i used games g = Some (res, g')" "unit_rng g"
  shows "\<exists>new. res = games @ new \<and> length new = n \<and>
    list_all (\<lambda>gm. (teams \<noteq> [] \<longrightarrow> (\<exists>x \<in> set teams. homeTeam gm = Some x))
        \<and> (2 \<le> card (set teams) \<longrightarrow> (\<exists>y \<in> set teams. awayTeam gm = Some y))) new"
proof (rule games_loop_invariant [OF assms(1), where Q = unit_rng
      and R = "\<lambda>h a. (teams \<noteq> [] \<longrightarrow> (\<exists>x \<in> set teams. h = Some x))
        \<and> (2 \<le> card (set teams) \<longrightarrow> (\<exists>y \<in> set teams. a = Some y))"])
  show "unit_rng g" by (rule assms(2))
next
  fix used g h a k g1
  assume "unit_rng g" "draw_pair fuel teams used g = Some (h, a, k, g1)"
  from draw_pair_unit [OF this(2,1)]
  show "((teams \<noteq> [] \<longrightarrow> (\<exists>x \<in> set teams. h = Some x))
        \<and> (2 \<le> card (set teams) \<longrightarrow> (\<exists>y \<in> set teams. a = Some y))) \<and> unit_rng g1"
    by blast
next
  fix i h a g1
  assume "unit_rng g1" "(teams \<noteq> [] \<longrightarrow> (\<exists>x \<in> set teams. h = Some x))
        \<and> (2 \<le> card (set teams) \<longrightarrow> (\<exists>y \<in> set teams. a = Some y))"
  then show "((teams \<noteq> [] \<longrightarrow> (\<exists>x\<in>set teams. homeTeam (fst (make_game i h a g1)) = Some x)) \<and>
         (2 \<le> card (set teams) \<longrightarrow>
          (\<exists>y\<in>set teams. awayTeam (fst (make_game i h a g1)) = Some y))) \<and>
        unit_rng (snd (make_game i h a g1))"
    by (simp add: make_game_fields make_game_unit)
qed

lemma pairKey_commute: "pairKey h a = pairKey a h"
  by (cases h; cases a) (auto simp: pairKey_def)

lemma pairKey_unordered: "{h, a} = {h', a'} \<Longrightarrow> pairKey h a = pairKey h' a'"
  using pairKey_commute by (auto simp: doubleton_eq_iff)

lemma generateMockGames_length:
  assumes "generateMockGames fuel teams count g = Some (games, g')"
  shows "length games = count"
proof -
  from assms have run: "games_loop fuel teams count 0 {} [] g = Some (games, g')"
    by (simp add: generateMockGames_def)
  from games_loop_invariant [OF run, of "\<lambda>_. True" "\<lambda>_ _. True" "\<lambda>_. True"]
  show ?thesis by auto
qed

subsection \<open>Mock games: unique pairings\<close>

text \<open>
  Claim C6. Whatever the roster and the random draws, the games that \<open>generateMockGames\<close>
  returns (for the default count 6 as for every other count) never contain two games with
  the same unordered pair of home and away team. The pairs are told apart by their key, the
  two names sorted and joined by a dash; the key does not depend on which team is at home,
  and no two games of the result have the same key.
\<close>

theorem mock_games_unique_pairs:
  assumes "generateMockGames fuel teams count g = Some (games, g')"
  shows "length games = count
    \<and> distinct (map (\<lambda>gm. pairKey (homeTeam gm) (awayTeam gm)) games)
    \<and> distinct (map (\<lambda>gm. {homeTeam gm, awayTeam gm}) games)
    \<and> (\<forall>h a. pairKey h a = pairKey a h)"
proof -
  let ?key = "\<lambda>gm. pairKey (homeTeam gm) (awayTeam gm)"
  let ?pair = "\<lambda>gm. {homeTeam gm, awayTeam gm}"
  from assms have run: "games_loop fuel teams count 0 {} [] g = Some (games, g')"
    by (simp add: generateMockGames_def)
  from games_loop_keys [OF run] have dk: "distinct (map ?key games)" by auto
  note len = generateMockGames_length [OF assms]
  have "inj_on ?pair (set games)"
  proof (rule inj_onI)
    fix x y assume xy: "x \<in> set games" "y \<in> set games" "?pair x = ?pair y"
    from pairKey_unordered [OF xy(3)] have "?key x = ?key y" .
    with dk xy(1,2) show "x = y" by (simp add: distinct_map inj_on_def)
  qed
  with dk have "distinct (map ?pair games)" by (simp add: distinct_map)
  with dk len pairKey_commute show ?thesis by blast
qed

theorem mock_games_unique_pairs_witness:
  "\<exists>games g'. generateMockGames 1 NBA_TEAMS 6
       (draws [1/24, 1/22, 1/2, 1/2, 0,   3/24, 3/22, 9/10, 1/10, 1/2,
               5/24, 5/22, 1/10, 9/10, 1/2,  7/24, 7/22, 0, 0, 0,
               9/24, 9/22, 1/3, 2/3, 99/100,   11/24, 11/22, 99/100, 0, 1/4]) = Some (games, g')
     \<and> map (\<lambda>gm. (homeTeam gm, awayTeam gm)) games =
         [(Some ''Lakers'', Some ''Celtics''), (Some ''Celtics'', Some ''Warriors''),
          (Some ''Warriors'', Some ''Nets''), (Some ''Nets'', Some ''Bucks''),
          (Some ''Bucks'', Some ''Heat''), (Some ''Heat'', Some ''Suns'')]
     \<and> length games = 6
     \<and> distinct (map (\<lambda>gm. {homeTeam gm, awayTeam gm}) games)"
proof -
  let ?g = "draws [1/24, 1/22, 1/2, 1/2, 0,   3/24, 3/22, 9/10, 1/10, 1/2,
               5/24, 5/22, 1/10, 9/10, 1/2,  7/24, 7/22, 0, 0, 0,
               9/24, 9/22, 1/3, 2/3, 99/100,   11/24, 11/22, 99/100, 0, 1/4]"
  have ev: "map_option (\<lambda>(gs, _). map (\<lambda>gm. (homeTeam gm, awayTeam gm)) gs)
              (generateMockGames 1 NBA_TEAMS 6 ?g) =
         Some [(Some ''Lakers'', Some ''Celtics''), (Some ''Celtics'', Some ''Warriors''),
          (Some ''Warriors'', Some ''Nets''), (Some ''Nets'', Some ''Bucks''),
          (Some ''Bucks'', Some ''Heat''), (Some ''Heat'', Some ''Suns'')]"
    by code_simp
  then obtain games g' where run: "generateMockGames 1 NBA_TEAMS 6 ?g = Some (games, g')"
    and names: "map (\<lambda>gm. (homeTeam gm, awayTeam gm)) games =
         [(Some ''Lakers'', Some ''Celtics''), (Some ''Celtics'', Some ''Warriors''),
          (Some ''Warriors'', Some ''Nets''), (Some ''Nets'', Some ''Bucks''),
          (Some ''Bucks'', Some ''Heat''), (Some ''Heat'', Some ''Suns'')]"
    by (cases "generateMockGames 1 NBA_TEAMS 6 ?g") auto
  from mock_games_unique_pairs [OF run]
  have "length games = 6" "distinct (map (\<lambda>gm. {homeTeam gm, awayTeam gm}) games)"
    by simp_all
  with run names show ?thesis by (intro exI [of _ games] exI [of _ g'] conjI)
qed


subsection \<open>Mock games: the winner\<close>

text \<open>
  Claim C9. In every game that \<open>generateMockGames\<close> returns, the winner is the home team
  when the home score is greater and the away team otherwise; so with equal scores the
  winner is the away team, and the winner is always one of the two teams of the game, never
  a draw. When the roster is not empty the two teams differ, and the winner is the home
  team if and only if the home score is greater; with two distinct names in the roster the
  winner is a name of the roster.
\<close>

theorem mock_game_winner:
  assumes "generateMockGames fuel teams count g = Some (games, g')" and "gm \<in> set games"
  shows "winner gm = (if homeScore gm > awayScore gm then homeTeam gm else awayTeam gm)
    \<and> (homeScore gm = awayScore gm \<longrightarrow> winner gm = awayTeam gm)
    \<and> (winner gm = homeTeam gm \<or> winner gm = awayTeam gm)
    \<and> (unit_rng g \<and> teams \<noteq> [] \<longrightarrow>
          homeTeam gm \<noteq> awayTeam gm
          \<and> (winner gm = homeTeam gm \<longleftrightarrow> homeScore gm > awayScore gm))
    \<and> (unit_rng g \<and> 2 \<le> card (set teams) \<longrightarrow> (\<exists>nm \<in> set teams. winner gm = Some nm))"
proof -
  from assms(1) have run: "games_loop fuel teams count 0 {} [] g = Some (games, g')"
    by (simp add: generateMockGames_def)
  from games_loop_teams [OF run] assms(2)
  have w: "winner gm = (if homeScore gm > awayScore gm then homeTeam gm else awayTeam gm)"
    and d: "\<forall>y. awayTeam gm = Some y \<longrightarrow> awayTeam gm \<noteq> homeTeam gm"
    by (auto simp: list_all_iff)
  have named: "(teams \<noteq> [] \<longrightarrow> (\<exists>x \<in> set teams. homeTeam gm = Some x))
        \<and> (2 \<le> card (set teams) \<longrightarrow> (\<exists>y \<in> set teams. awayTeam gm = Some y))" if "unit_rng g"
    using games_loop_named [OF run that] assms(2) by (auto simp: list_all_iff)
  have ne: "homeTeam gm \<noteq> awayTeam gm" if "unit_rng g" "teams \<noteq> []"
  proof -
    from named [OF that(1)] that(2) obtain x where "homeTeam gm = Some x" by blast
    with d show ?thesis by (cases "awayTeam gm") auto
  qed
  have nm: "\<exists>nm \<in> set teams. winner gm = Some nm" if "unit_rng g" "2 \<le> card (set teams)"
  proof -
    from that(2) have "teams \<noteq> []" by auto
    with named [OF that(1)] that(2) w show ?thesis by auto
  qed
  from w ne nm show ?thesis by auto
qed

theorem mock_game_winner_witness:
  "\<exists>games g' gm. generateMockGames 1 NBA_TEAMS 6
       (draws [1/24, 1/22, 1/2, 1/2, 0,   3/24, 3/22, 9/10, 1/10, 1/2,
               5/24, 5/22, 1/10, 9/10, 1/2,  7/24, 7/22, 0, 0, 0,
               9/24, 9/22, 1/3, 2/3, 99/100,   11/24, 11/22, 99/100, 0, 1/4]) = Some (games, g')
     \<and> gm \<in> set games
     \<and> homeTeam gm = Some ''Lakers'' \<and> awayTeam gm = Some ''Celtics''
     \<and> homeScore gm = 105 \<and> awayScore gm = 105
     \<and> winner gm = awayTeam gm \<and> winner gm \<noteq> homeTeam gm"
proof -
  let ?xs = "[1/24, 1/22, 1/2, 1/2, 0,   3/24, 3/22, 9/10, 1/10, 1/2,
               5/24, 5/22, 1/10, 9/10, 1/2,  7/24, 7/22, 0, 0, 0,
               9/24, 9/22, 1/3, 2/3, 99/100,   11/24, 11/22, 99/100, 0, 1/4 :: rat]"
  have ev: "map_option (\<lambda>(gs, _). (\<lambda>gm. (homeTeam gm, awayTeam gm, homeScore gm, awayScore gm)) (hd gs))
              (generateMockGames 1 NBA_TEAMS 6 (draws ?xs)) =
         Some (Some ''Lakers'', Some ''Celtics'', 105, 105)"
    by code_simp
  then obtain games g' where run: "generateMockGames 1 NBA_TEAMS 6 (draws ?xs) = Some (games, g')"
    and first: "homeTeam (hd games) = Some ''Lakers''" "awayTeam (hd games) = Some ''Celtics''"
      "homeScore (hd games) = 105" "awayScore (hd games) = 105"
    by (cases "generateMockGames 1 NBA_TEAMS 6 (draws ?xs)") auto
  have u: "unit_rng (draws ?xs)" by (rule unit_rng_draws) simp
  have t: "NBA_TEAMS \<noteq> []" by (simp add: NBA_TEAMS_def)
  from generateMockGames_length [OF run] have "games \<noteq> []" by auto
  then have mem: "hd games \<in> set games" by simp
  from mock_game_winner [OF run mem] u t first
  have "winner (hd games) = awayTeam (hd games)" "winner (hd games) \<noteq> homeTeam (hd games)"
    by auto
  with run mem first show ?thesis by (intro exI [of _ games] exI [of _ g'] exI [of _ "hd games"] conjI)
qed

lemma make_team_name: "name (fst (make_team i nm g)) = Some nm"
proof -
  obtain w g1 where 1: "getRandomInt 5 45 g = (w, g1)" by force
  obtain l g2 where 2: "getRandomInt 5 45 g1 = (l, g2)" by force
  obtain sk g3 where 3: "getRandomInt 1 8 g2 = (sk, g3)" by force
  obtain r g4 where 4: "random g3 = (r, g4)" by force
  obtain pts g5 where 5: "getRandomInt 80 120 g4 = (pts, g5)" by force
  show ?thesis by (simp add: make_team_def 1 2 3 4 5 Let_def)
qed

lemma mock_teams_from_names: "map name (fst (mock_teams_from i teams g)) = map Some teams"
proof (induction teams arbitrary: i g)
  case Nil
  then show ?case by simp
next
  case (Cons nm nms)
  obtain t g1 where 1: "make_team i nm g = (t, g1)" by force
  obtain ts g2 where 2: "mock_teams_from (Suc i) nms g1 = (ts, g2)" by force
  from make_team_name [of i nm g] 1 have "name t = Some nm" by simp
  moreover from Cons.IH [of "Suc i" g1] 2 have "map name ts = map Some nms" by simp
  ultimately show ?case by (simp add: 1 2)
qed

lemma generateMockTeams_names: "map name (fst (generateMockTeams teams g)) = map Some teams"
  by (simp add: generateMockTeams_def mock_teams_from_names)

lemma mock_standings_string:
  "\<exists>ts g2. mock_standings (ArgString s) g =
      (Inr \<lparr> success = True, data = ts, league = map upper_char s,
             source = Some ''Mock Data'' \<rparr>, g2)
    \<and> map name ts = map Some (select_teams (map lower_char s))"
proof -
  let ?g1 = "simulateNetworkDelay 300 800 g"
  obtain ts g2 where 1: "generateMockTeams (select_teams (map lower_char s)) ?g1 = (ts, g2)"
    by force
  from generateMockTeams_names [of "select_teams (map lower_char s)" ?g1] 1
  have "map name ts = map Some (select_teams (map lower_char s))" by simp
  then show ?thesis
    by (simp add: mock_standings_def toLowerCase_def toUpperCase_def 1)
qed

lemma default_league_string:
  "lg0 \<noteq> ArgNull \<Longrightarrow> \<exists>s. default_league lg0 = ArgString s"
  by (cases lg0) (simp_all add: default_league_def)

lemma real_standings_source:
  "real_standings cfg net lg g = (Inr res, g1) \<Longrightarrow> source res = Some ''MySportsFeeds'' \<and> success res"
  by (auto simp: real_standings_def split: sum.splits option.splits prod.splits)

subsection \<open>fetchStandings: the fallback to mock data\<close>

text \<open>
  Claim C1. For every league (a string, or the default when the argument is left out):
  when the API key is configured and the attempt on the real endpoint throws, whatever the
  reason (the network fails, the status is not 2xx, the body is not JSON, the payload lacks
  what the transform reads), \<open>fetchStandings\<close> does not reject. It returns a result with
  \<open>success = true\<close>, tagged as mock data, whose teams are the roster selected for the
  league; the error of the real endpoint does not reach the caller.
\<close>

theorem fetchStandings_falls_back:
  assumes "lg0 \<noteq> ArgNull"
    and "isAPIConfigured cfg"
    and "fst (real_standings cfg net (default_league lg0) g) = Inl e"
  shows "\<exists>res g' s. default_league lg0 = ArgString s
      \<and> fetchStandings cfg net lg0 g = (Inr res, g')
      \<and> success res \<and> source res = Some ''Mock Data''
      \<and> league res = map upper_char s
      \<and> map name (data res) = map Some (select_teams (map lower_char s))"
proof -
  from default_league_string [OF assms(1)] obtain s where s: "default_league lg0 = ArgString s" ..
  obtain g1 where r: "real_standings cfg net (ArgString s) g = (Inl e, g1)"
    using assms(3) s by (cases "real_standings cfg net (ArgString s) g") auto
  from mock_standings_string [of s g1] obtain ts g2 where
    m: "mock_standings (ArgString s) g1 =
      (Inr \<lparr> success = True, data = ts, league = map upper_char s,
             source = Some ''Mock Data'' \<rparr>, g2)"
    and n: "map name ts = map Some (select_teams (map lower_char s))" by blast
  have "fetchStandings cfg net lg0 g = (Inr \<lparr> success = True, data = ts, league = map upper_char s,
             source = Some ''Mock Data'' \<rparr>, g2)"
    by (simp add: fetchStandings_def s assms(2) r m)
  with s n show ?thesis by simp
qed

lemma real_standings_fails:
  assumes "net (BASE_URL cfg @ ''/'' @ arg_text lg @ ''/'' @ SEASON cfg @ ''/standings.json'') = r"
    and "(\<exists>err. r = NetworkFailure err)
       \<or> (\<exists>st txt b. r = HttpResponse st txt b \<and> \<not> (200 \<le> st \<and> st \<le> 299))
       \<or> (\<exists>st txt. r = HttpResponse st txt None)
       \<or> (\<exists>st txt d. r = HttpResponse st txt (Some d) \<and> payload_standings d = None)"
  shows "\<exists>e. fst (real_standings cfg net lg g) = Inl e"
  using assms
  by (auto simp: real_standings_def fetchFromMySportsFeeds_def)


theorem fetchStandings_falls_back_witness:
  "(\<exists>res g'. fetchStandings (config_public \<lparr> API_KEY := Some ''key'' \<rparr>)
                 (\<lambda>_. NetworkFailure (TypeError ''Failed to fetch'')) (ArgString ''nba'') (draws []) = (Inr res, g')
       \<and> success res \<and> source res = Some ''Mock Data'' \<and> league res = ''NBA''
       \<and> map name (data res) = map Some NBA_TEAMS)
   \<and> (\<exists>res g'. fetchStandings (config_public \<lparr> API_KEY := Some ''key'' \<rparr>)
                 (\<lambda>_. HttpResponse 503 ''Service Unavailable'' (Some \<lparr> payload_standings = Some [] \<rparr>)) (ArgString ''nba'') (draws []) = (Inr res, g')
       \<and> success res \<and> source res = Some ''Mock Data'' \<and> league res = ''NBA''
       \<and> map name (data res) = map Some NBA_TEAMS)
   \<and> (\<exists>res g'. fetchStandings (config_public \<lparr> API_KEY := Some ''key'' \<rparr>)
                 (\<lambda>_. HttpResponse 200 ''OK'' None) (ArgString ''nba'') (draws []) = (Inr res, g')
       \<and> success res \<and> source res = Some ''Mock Data'' \<and> league res = ''NBA''
       \<and> map name (data res) = map Some NBA_TEAMS)
   \<and> (\<exists>res g'. fetchStandings (config_public \<lparr> API_KEY := Some ''key'' \<rparr>)
                 (\<lambda>_. HttpResponse 200 ''OK'' (Some \<lparr> payload_standings = None \<rparr>)) (ArgString ''nba'') (draws []) = (Inr res, g')
       \<and> success res \<and> source res = Some ''Mock Data'' \<and> league res = ''NBA''
       \<and> map name (data res) = map Some NBA_TEAMS)"
proof -
  let ?cfg = "config_public \<lparr> API_KEY := Some ''key'' \<rparr>"
  have c: "isAPIConfigured ?cfg" by (simp add: isAPIConfigured_def config_public_def)
  have a: "ArgString ''nba'' \<noteq> ArgNull" by simp
  have d: "default_league (ArgString ''nba'') = ArgString ''nba''" by (simp add: default_league_def)
  have u: "map upper_char ''nba'' = ''NBA''" by (simp add: upper_char_def)
  have l: "select_teams (map lower_char ''nba'') = NBA_TEAMS"
    by (simp add: lower_char_def select_teams_def)
  have k: "\<exists>res g'. fetchStandings ?cfg net (ArgString ''nba'') (draws []) = (Inr res, g')
       \<and> success res \<and> source res = Some ''Mock Data'' \<and> league res = ''NBA''
       \<and> map name (data res) = map Some NBA_TEAMS"
    if "fst (real_standings ?cfg net (ArgString ''nba'') (draws [])) = Inl e" for net e
    using fetchStandings_falls_back [OF a c, of net "draws []" e] that d u l by auto
  have 1: "fst (real_standings ?cfg (\<lambda>_. NetworkFailure (TypeError ''Failed to fetch''))
             (ArgString ''nba'') (draws [])) = Inl (TypeError ''Failed to fetch'')"
    by (simp add: real_standings_def fetchFromMySportsFeeds_def)
  have 2: "fst (real_standings ?cfg
             (\<lambda>_. HttpResponse 503 ''Service Unavailable'' (Some \<lparr> payload_standings = Some [] \<rparr>))
             (ArgString ''nba'') (draws [])) = Inl (Error ''API Error: 503 Service Unavailable'')"
    by (simp add: real_standings_def fetchFromMySportsFeeds_def digit_char_def)
  have 3: "fst (real_standings ?cfg (\<lambda>_. HttpResponse 200 ''OK'' None)
             (ArgString ''nba'') (draws [])) = Inl (SyntaxError ''Unexpected token in JSON'')"
    by (simp add: real_standings_def fetchFromMySportsFeeds_def)
  have 4: "fst (real_standings ?cfg (\<lambda>_. HttpResponse 200 ''OK'' (Some \<lparr> payload_standings = None \<rparr>))
             (ArgString ''nba'') (draws [])) =
           Inl (TypeError ''Cannot read properties of undefined (reading map)'')"
    by (simp add: real_standings_def fetchFromMySportsFeeds_def)
  from k [OF 1] k [OF 2] k [OF 3] k [OF 4] show ?thesis by (intro conjI)
qed

lemma real_games_source:
  "real_games cfg net lg = Inr res \<Longrightarrow> source res = Some ''MySportsFeeds''"
  by (auto simp: real_games_def split: sum.splits option.splits)

lemma mock_games_string:
  "mock_games fuel (ArgString s) g =
     map_option (\<lambda>(gs, g'). (Inr \<lparr> success = True, data = gs, league = map upper_char s,
                                     source = Some ''Mock Data'' \<rparr>, g'))
       (generateMockGames fuel (select_teams (map lower_char s)) 6 (simulateNetworkDelay 300 800 g))"
  by (simp add: mock_games_def toLowerCase_def toUpperCase_def split: option.splits)

lemma select_teams_default:
  "l \<notin> {''nba'', ''nfl'', ''mlb'', ''epl''} \<Longrightarrow> select_teams l = NBA_TEAMS"
  by (simp add: select_teams_def)

subsection \<open>fetchAllData: all or nothing\<close>

lemma status_of_Fulfilled: "status_of r = Fulfilled \<longleftrightarrow> (\<exists>v. r = Some (Inr v))"
  by (auto simp: status_of_def split: option.splits sum.splits)

lemma status_of_Rejected: "status_of r = Rejected e \<longleftrightarrow> r = Some (Inl e)"
  by (auto simp: status_of_def split: option.splits sum.splits)

lemma status_of_Hangs: "status_of r = Hangs \<longleftrightarrow> r = None"
  by (auto simp: status_of_def split: option.splits sum.splits)

lemma earliest_Cons_Fulfilled: "earliest ((t, Fulfilled) # r) = earliest r"
  by simp

lemma earliest_Some: "earliest xs = Some (t, s) \<Longrightarrow> (t, s) \<in> set xs \<and> s \<noteq> Fulfilled"
proof (induction xs)
  case Nil
  then show ?case by simp
next
  case (Cons p ps)
  obtain t0 s0 where p: "p = (t0, s0)" by (cases p) auto
  show ?case
  proof (cases "s0 = Fulfilled")
    case True
    with Cons p show ?thesis by simp
  next
    case False
    show ?thesis
    proof (cases "earliest ps")
      case None
      with Cons.prems p False show ?thesis by simp
    next
      case (Some q)
      obtain t' s' where q: "q = (t', s')" by (cases q) auto
      from Cons.prems p False Some q
      have "(t, s) = (t0, s0) \<or> earliest ps = Some (t, s)" by (simp split: if_splits)
      with Cons.IH False p show ?thesis by auto
    qed
  qed
qed

lemma earliest_Cons_other: "s \<noteq> Fulfilled \<Longrightarrow> earliest ((t, s) # r) \<noteq> None"
  by (cases "earliest r") auto

lemma earliest_None: "earliest xs = None \<longleftrightarrow> (\<forall>p \<in> set xs. snd p = Fulfilled)"
proof (induction xs)
  case Nil
  then show ?case by simp
next
  case (Cons p ps)
  obtain t0 s0 where p: "p = (t0, s0)" by (cases p) auto
  show ?case
  proof (cases "s0 = Fulfilled")
    case True
    with Cons p show ?thesis by simp
  next
    case False
    from earliest_Cons_other [OF False, of t0 ps] p have "earliest (p # ps) \<noteq> None" by simp
    with False p show ?thesis by auto
  qed
qed

lemma promise_all_Fulfilled: "promise_all ps = Fulfilled \<longleftrightarrow> (\<forall>p \<in> set ps. snd p = Fulfilled)"
proof (cases "earliest ps")
  case None
  then show ?thesis using earliest_None [of ps] by (simp add: promise_all_def)
next
  case (Some p)
  obtain t s where p: "p = (t, s)" by (cases p) auto
  from earliest_Some [of ps t s] Some p have "(t, s) \<in> set ps" "s \<noteq> Fulfilled" by simp_all
  then have "\<not> (\<forall>p \<in> set ps. snd p = Fulfilled)" by force
  moreover from Some p have "promise_all ps = s" by (simp add: promise_all_def)
  ultimately show ?thesis using \<open>s \<noteq> Fulfilled\<close> by simp
qed

lemma promise_all_mem: "promise_all ps \<noteq> Fulfilled \<Longrightarrow> promise_all ps \<in> snd ` set ps"
proof (cases "earliest ps")
  case None
  assume "promise_all ps \<noteq> Fulfilled"
  with None show ?thesis by (simp add: promise_all_def)
next
  case (Some p)
  obtain t s where p: "p = (t, s)" by (cases p) auto
  from earliest_Some [of ps t s] Some p have "(t, s) \<in> set ps" by simp
  moreover from Some p have "promise_all ps = s" by (simp add: promise_all_def)
  ultimately show ?thesis by force
qed


lemma fetchDashboardStats_string:
  "\<exists>r. fst (fetchDashboardStats (ArgString s) g) = Inr r"
  by (simp add: fetchDashboardStats_def default_league_def toUpperCase_def Let_def split: prod.splits)

lemma fetchAllData_body_unfold:
  "fetchAllData_body (t1, t2, t3) lg r1 r2 r3 =
     (case promise_all [(t1, status_of r1), (t2, status_of r2), (t3, status_of r3)] of
           Hangs \<Rightarrow> None
         | Rejected e \<Rightarrow> Some (Inl e)
         | Fulfilled \<Rightarrow>
             (case (r1, r2, r3) of
                (Some (Inr standings), Some (Inr games), Some (Inr stats)) \<Rightarrow>
                  (case toUpperCase lg of
                     Inl e \<Rightarrow> Some (Inl e)
                   | Inr L \<Rightarrow>
                       Some (Inr \<lparr> all_success = True, all_standings = data standings,
                                   all_games = data games, all_stats = data stats,
                                   all_league = L \<rparr>))
              | _ \<Rightarrow> None))"
  unfolding fetchAllData_body_def Let_def
  by (simp only: prod.case)

lemma earliest_least:
  "earliest xs = Some (t, s) \<Longrightarrow> (t', s') \<in> set xs \<Longrightarrow> s' \<noteq> Fulfilled \<Longrightarrow> t \<le> t'"
proof (induction xs arbitrary: t s)
  case Nil
  then show ?case by simp
next
  case (Cons p ps)
  obtain t0 s0 where p: "p = (t0, s0)" by (cases p) auto
  show ?case
  proof (cases "s0 = Fulfilled")
    case True
    with Cons.prems p have "earliest ps = Some (t, s)" "(t', s') \<in> set ps" by auto
    then show ?thesis using Cons.prems(3) by (rule Cons.IH)
  next
    case False
    show ?thesis
    proof (cases "earliest ps")
      case None
      then have "\<forall>q \<in> set ps. snd q = Fulfilled" by (simp add: earliest_None)
      with Cons.prems(2,3) p have "(t', s') = (t0, s0)" by auto
      moreover from Cons.prems(1) p False None have "(t, s) = (t0, s0)" by simp
      ultimately show ?thesis by simp
    next
      case (Some q)
      obtain tq sq where q: "q = (tq, sq)" by (cases q) auto
      have le: "tq \<le> t'" if "(t', s') \<in> set ps"
        using Some q that Cons.prems(3) Cons.IH [of tq sq] by simp
      show ?thesis
      proof (cases "tq < t0")
        case True
        with Cons.prems(1) p False Some q have "t = tq" by simp
        with le True Cons.prems(2) p show ?thesis by auto
      next
        case ge: False
        with Cons.prems(1) p False Some q have "t = t0" by simp
        with le ge Cons.prems(2) p show ?thesis by auto
      qed
    qed
  qed
qed

text \<open>
  Claim C3. \<open>fetchAllData\<close> starts the standings, the games and the stats request on the
  same league and awaits the three together. Whatever the three requests settle with:
  \<^item> when the combined call fulfils, all three requests have fulfilled and the dataset
    holds the data of each of them, so a partial dataset is never returned;
  \<^item> when one of the three rejects (and the code of none runs forever), the combined call
    rejects, with the reason of a rejected request;
  \<^item> a request that rejects before every other request that does not fulfil gives its
    reason to the combined call, also when another request never returns;
  \<^item> when all three fulfil, for a league that is a string, the combined call fulfils with
    exactly their data.
\<close>

theorem fetchAllData_all_or_nothing:
  fixes t1 t2 t3 :: nat and lg :: arg
    and r1 :: "(js_error + team list api_result) option"
    and r2 :: "(js_error + game list api_result) option"
    and r3 :: "(js_error + dashboard_stats api_result) option"
  defines "out \<equiv> fetchAllData_body (t1, t2, t3) lg r1 r2 r3"
    and "ps \<equiv> [(t1, status_of r1), (t2, status_of r2), (t3, status_of r3)]"
  shows "fetchAllData env lg0 =
       fetchAllData_body (settle_time env) (default_league lg0)
         (Some (fst (fetchStandings (config env) (standings_net env) (default_league lg0)
                  (standings_rng env))))
         (map_option fst (fetchRecentGames (loop_fuel env) (config env) (games_net env)
                  (default_league lg0) (games_rng env)))
         (Some (fst (fetchDashboardStats (default_league lg0) (stats_rng env))))
    \<and> (\<forall>d. out = Some (Inr d) \<longrightarrow>
            (\<exists>s gs st. r1 = Some (Inr s) \<and> r2 = Some (Inr gs) \<and> r3 = Some (Inr st)
               \<and> all_success d \<and> all_standings d = data s \<and> all_games d = data gs
               \<and> all_stats d = data st))
    \<and> ((\<exists>e. r1 = Some (Inl e) \<or> r2 = Some (Inl e) \<or> r3 = Some (Inl e))
          \<and> r1 \<noteq> None \<and> r2 \<noteq> None \<and> r3 \<noteq> None \<longrightarrow>
          (\<exists>e. out = Some (Inl e)
             \<and> (r1 = Some (Inl e) \<or> r2 = Some (Inl e) \<or> r3 = Some (Inl e))))
    \<and> (\<forall>t e. (t, Rejected e) \<in> set ps
          \<and> (\<forall>q \<in> set ps. snd q \<noteq> Fulfilled \<and> q \<noteq> (t, Rejected e) \<longrightarrow> t < fst q)
          \<longrightarrow> out = Some (Inl e))
    \<and> (\<forall>s gs st l. r1 = Some (Inr s) \<and> r2 = Some (Inr gs) \<and> r3 = Some (Inr st)
          \<and> lg = ArgString l \<longrightarrow>
          out = Some (Inr \<lparr> all_success = True, all_standings = data s, all_games = data gs,
                            all_stats = data st, all_league = map upper_char l \<rparr>))"
proof -
  have f: "out =
     (case promise_all ps of
           Hangs \<Rightarrow> None
         | Rejected e \<Rightarrow> Some (Inl e)
         | Fulfilled \<Rightarrow>
             (case (r1, r2, r3) of
                (Some (Inr standings), Some (Inr games), Some (Inr stats)) \<Rightarrow>
                  (case toUpperCase lg of
                     Inl e \<Rightarrow> Some (Inl e)
                   | Inr L \<Rightarrow>
                       Some (Inr \<lparr> all_success = True, all_standings = data standings,
                                   all_games = data games, all_stats = data stats,
                                   all_league = L \<rparr>))
              | _ \<Rightarrow> None))"
    unfolding out_def ps_def by (rule fetchAllData_body_unfold)
  have sts: "snd ` set ps = {status_of r1, status_of r2, status_of r3}"
    by (simp add: ps_def)
  have link: "fetchAllData env lg0 =
       fetchAllData_body (settle_time env) (default_league lg0)
         (Some (fst (fetchStandings (config env) (standings_net env) (default_league lg0)
                  (standings_rng env))))
         (map_option fst (fetchRecentGames (loop_fuel env) (config env) (games_net env)
                  (default_league lg0) (games_rng env)))
         (Some (fst (fetchDashboardStats (default_league lg0) (stats_rng env))))"
    unfolding fetchAllData_def Let_def ..
  have a: "\<exists>s gs st. r1 = Some (Inr s) \<and> r2 = Some (Inr gs) \<and> r3 = Some (Inr st)
               \<and> all_success d \<and> all_standings d = data s \<and> all_games d = data gs
               \<and> all_stats d = data st" if run: "out = Some (Inr d)" for d
  proof (cases "promise_all ps")
    case Fulfilled
    then have "\<forall>p \<in> set ps. snd p = Fulfilled" by (simp add: promise_all_Fulfilled)
    then have "status_of r1 = Fulfilled" "status_of r2 = Fulfilled" "status_of r3 = Fulfilled"
      by (simp_all add: ps_def)
    then obtain s gs st where r: "r1 = Some (Inr s)" "r2 = Some (Inr gs)" "r3 = Some (Inr st)"
      unfolding status_of_Fulfilled by blast
    show ?thesis
    proof (cases "toUpperCase lg")
      case (Inl e)
      with run f Fulfilled r show ?thesis by simp
    next
      case (Inr L)
      with run f Fulfilled r
      have "d = \<lparr> all_success = True, all_standings = data s, all_games = data gs,
                   all_stats = data st, all_league = L \<rparr>" by simp
      with r show ?thesis by simp
    qed
  next
    case (Rejected e)
    with run f show ?thesis by simp
  next
    case Hangs
    with run f show ?thesis by simp
  qed
  have b: "\<exists>e. out = Some (Inl e)
             \<and> (r1 = Some (Inl e) \<or> r2 = Some (Inl e) \<or> r3 = Some (Inl e))"
    if rej: "\<exists>e. r1 = Some (Inl e) \<or> r2 = Some (Inl e) \<or> r3 = Some (Inl e)"
      and nh: "r1 \<noteq> None" "r2 \<noteq> None" "r3 \<noteq> None"
  proof -
    from rej have "status_of r1 \<noteq> Fulfilled \<or> status_of r2 \<noteq> Fulfilled
        \<or> status_of r3 \<noteq> Fulfilled"
      unfolding status_of_Fulfilled by auto
    then have "\<not> (\<forall>p \<in> set ps. snd p = Fulfilled)" by (auto simp: ps_def)
    then have nf: "promise_all ps \<noteq> Fulfilled" by (simp add: promise_all_Fulfilled)
    from promise_all_mem [OF nf] sts
    have m: "promise_all ps = status_of r1 \<or> promise_all ps = status_of r2
        \<or> promise_all ps = status_of r3" by auto
    have "status_of r1 \<noteq> Hangs" "status_of r2 \<noteq> Hangs" "status_of r3 \<noteq> Hangs"
      using nh by (simp_all add: status_of_Hangs)
    with m have "promise_all ps \<noteq> Hangs" by auto
    with nf obtain err where e: "promise_all ps = Rejected err" by (cases "promise_all ps") auto
    with m have "status_of r1 = Rejected err \<or> status_of r2 = Rejected err
        \<or> status_of r3 = Rejected err" by auto
    then have "r1 = Some (Inl err) \<or> r2 = Some (Inl err) \<or> r3 = Some (Inl err)"
      unfolding status_of_Rejected .
    moreover from f e have "out = Some (Inl err)" by simp
    ultimately show ?thesis by blast
  qed
  have c: "out = Some (Inl e)"
    if mem: "(t, Rejected e) \<in> set ps"
      and first: "\<forall>q \<in> set ps. snd q \<noteq> Fulfilled \<and> q \<noteq> (t, Rejected e) \<longrightarrow> t < fst q"
    for t e
  proof (cases "earliest ps")
    case None
    then have "\<forall>p \<in> set ps. snd p = Fulfilled" by (simp add: earliest_None)
    with mem show ?thesis by force
  next
    case (Some q)
    obtain t0 s0 where q: "q = (t0, s0)" by (cases q) auto
    from earliest_Some [of ps t0 s0] Some q have q1: "(t0, s0) \<in> set ps" "s0 \<noteq> Fulfilled"
      by simp_all
    from earliest_least [of ps t0 s0 t "Rejected e"] Some q mem have le: "t0 \<le> t" by simp
    have "(t0, s0) = (t, Rejected e)"
    proof (rule ccontr)
      assume "(t0, s0) \<noteq> (t, Rejected e)"
      with first q1 have "t < t0" by force
      with le show False by simp
    qed
    with Some q have "promise_all ps = Rejected e" by (simp add: promise_all_def)
    with f show ?thesis by simp
  qed
  have d: "out = Some (Inr \<lparr> all_success = True, all_standings = data s, all_games = data gs,
                            all_stats = data st, all_league = map upper_char l \<rparr>)"
    if r: "r1 = Some (Inr s) \<and> r2 = Some (Inr gs) \<and> r3 = Some (Inr st) \<and> lg = ArgString l"
    for s gs st l
  proof -
    from r have "\<forall>p \<in> set ps. snd p = Fulfilled" by (simp add: ps_def status_of_def)
    then have pa: "promise_all ps = Fulfilled" by (simp add: promise_all_Fulfilled)
    from r have "toUpperCase lg = Inr (map upper_char l)" by (simp add: toUpperCase_def)
    with f pa r show ?thesis by simp
  qed
  show ?thesis
  proof (intro conjI allI impI)
    show "fetchAllData env lg0 =
       fetchAllData_body (settle_time env) (default_league lg0)
         (Some (fst (fetchStandings (config env) (standings_net env) (default_league lg0)
                  (standings_rng env))))
         (map_option fst (fetchRecentGames (loop_fuel env) (config env) (games_net env)
                  (default_league lg0) (games_rng env)))
         (Some (fst (fetchDashboardStats (default_league lg0) (stats_rng env))))"
      by (rule link)
  next
    fix d assume "out = Some (Inr d)"
    then show "\<exists>s gs st. r1 = Some (Inr s) \<and> r2 = Some (Inr gs) \<and> r3 = Some (Inr st)
               \<and> all_success d \<and> all_standings d = data s \<and> all_games d = data gs
               \<and> all_stats d = data st" by (rule a)
  next
    assume "(\<exists>e. r1 = Some (Inl e) \<or> r2 = Some (Inl e) \<or> r3 = Some (Inl e))
          \<and> r1 \<noteq> None \<and> r2 \<noteq> None \<and> r3 \<noteq> None"
    then show "\<exists>e. out = Some (Inl e)
             \<and> (r1 = Some (Inl e) \<or> r2 = Some (Inl e) \<or> r3 = Some (Inl e))"
      using b by simp
  next
    fix t e
    assume h: "(t, Rejected e) \<in> set ps
          \<and> (\<forall>q \<in> set ps. snd q \<noteq> Fulfilled \<and> q \<noteq> (t, Rejected e) \<longrightarrow> t < fst q)"
    show "out = Some (Inl e)" by (rule c [OF conjunct1 [OF h] conjunct2 [OF h]])
  next
    fix s gs st l
    assume "r1 = Some (Inr s) \<and> r2 = Some (Inr gs) \<and> r3 = Some (Inr st) \<and> lg = ArgString l"
    then show "out = Some (Inr \<lparr> all_success = True, all_standings = data s, all_games = data gs,
                            all_stats = data st, all_league = map upper_char l \<rparr>)" by (rule d)
  qed
qed


theorem fetchAllData_all_or_nothing_witness:
  "fetchAllData_body (1, 2, 3) (ArgString ''nba'')
       (Some (Inr \<lparr> success = True, data = [], league = ''NBA'', source = Some ''Mock Data'' \<rparr>))
       (Some (Inl (Error ''games unavailable'')))
       (Some (Inr \<lparr> success = True,
          data = \<lparr> totalTeams = 12, gamesToday = 3, topScorer = Some ''LeBron James'',
                   avgScore = 105 \<rparr>, league = ''NBA'', source = None \<rparr>))
     = Some (Inl (Error ''games unavailable''))
   \<and> fetchAllData_body (5, 9, 2) (ArgString ''nba'')
       (Some (Inl (Error ''standings unavailable''))) None
       (Some (Inl (Error ''stats unavailable'')))
     = Some (Inl (Error ''stats unavailable''))
   \<and> fetchAllData_body (1, 2, 3) (ArgString ''nba'')
       (Some (Inr \<lparr> success = True, data = [], league = ''NBA'', source = Some ''Mock Data'' \<rparr>))
       (Some (Inr \<lparr> success = True, data = [], league = ''NBA'', source = Some ''Mock Data'' \<rparr>))
       (Some (Inr \<lparr> success = True,
          data = \<lparr> totalTeams = 12, gamesToday = 3, topScorer = Some ''LeBron James'',
                   avgScore = 105 \<rparr>, league = ''NBA'', source = None \<rparr>))
     = Some (Inr \<lparr> all_success = True, all_standings = [], all_games = [],
          all_stats = \<lparr> totalTeams = 12, gamesToday = 3, topScorer = Some ''LeBron James'',
                   avgScore = 105 \<rparr>, all_league = ''NBA'' \<rparr>)
   \<and> (\<exists>d. fetchAllData
          \<lparr> config = config_public,
            standings_net = (\<lambda>_. NetworkFailure (Error [])),
            games_net = (\<lambda>_. NetworkFailure (Error [])),
            settle_time = (2, 1, 0), loop_fuel = 1,
            standings_rng = draws [],
            games_rng = draws [0, 1/24, 1/22, 1/2, 1/2, 0,   3/24, 3/22, 9/10, 1/10, 1/2,
               5/24, 5/22, 1/10, 9/10, 1/2,  7/24, 7/22, 0, 0, 0,
               9/24, 9/22, 1/3, 2/3, 99/100,   11/24, 11/22, 99/100, 0, 1/4],
            stats_rng = draws [] \<rparr> (ArgString ''nba'') = Some (Inr d)
        \<and> length (all_standings d) = 12 \<and> length (all_games d) = 6)"
proof -
  let ?S = "\<lparr> success = True, data = [] :: team list, league = ''NBA'',
              source = Some ''Mock Data'' \<rparr>"
  let ?G = "\<lparr> success = True, data = [] :: game list, league = ''NBA'',
              source = Some ''Mock Data'' \<rparr>"
  let ?D = "\<lparr> success = True,
          data = \<lparr> totalTeams = 12, gamesToday = 3, topScorer = Some ''LeBron James'',
                   avgScore = 105 \<rparr>, league = ''NBA'', source = None \<rparr>"
  let ?lg = "ArgString ''nba''"
  have up: "map upper_char ''nba'' = ''NBA''" by (simp add: upper_char_def)
  note A = fetchAllData_all_or_nothing [where ?t1.0 = 1 and ?t2.0 = 2 and ?t3.0 = 3
      and lg = ?lg and ?r1.0 = "Some (Inr ?S)"
      and ?r2.0 = "Some (Inl (Error ''games unavailable''))" and ?r3.0 = "Some (Inr ?D)",
      THEN conjunct2, THEN conjunct2, THEN conjunct1]
  have "\<exists>e. fetchAllData_body (1, 2, 3) ?lg (Some (Inr ?S))
           (Some (Inl (Error ''games unavailable''))) (Some (Inr ?D)) = Some (Inl e)
         \<and> ((Some (Inr ?S) :: (js_error + team list api_result) option) = Some (Inl e)
             \<or> (Some (Inl (Error ''games unavailable'')) :: (js_error + game list api_result) option)
                  = Some (Inl e)
             \<or> (Some (Inr ?D) :: (js_error + dashboard_stats api_result) option) = Some (Inl e))"
    by (rule A [THEN mp]) simp
  then have a: "fetchAllData_body (1, 2, 3) ?lg (Some (Inr ?S))
           (Some (Inl (Error ''games unavailable''))) (Some (Inr ?D))
        = Some (Inl (Error ''games unavailable''))"
    by auto
  note B = fetchAllData_all_or_nothing [where ?t1.0 = 5 and ?t2.0 = 9 and ?t3.0 = 2
      and lg = ?lg and ?r1.0 = "Some (Inl (Error ''standings unavailable''))"
      and ?r2.0 = None and ?r3.0 = "Some (Inl (Error ''stats unavailable''))",
      THEN conjunct2, THEN conjunct2, THEN conjunct2, THEN conjunct1, rule_format,
      of 2 "Error ''stats unavailable''"]
  have b: "fetchAllData_body (5, 9, 2) ?lg (Some (Inl (Error ''standings unavailable''))) None
           (Some (Inl (Error ''stats unavailable''))) = Some (Inl (Error ''stats unavailable''))"
    by (rule B) (simp add: status_of_def)
  note C = fetchAllData_all_or_nothing [where ?t1.0 = 1 and ?t2.0 = 2 and ?t3.0 = 3
      and lg = ?lg and ?r1.0 = "Some (Inr ?S)" and ?r2.0 = "Some (Inr ?G)"
      and ?r3.0 = "Some (Inr ?D)",
      THEN conjunct2, THEN conjunct2, THEN conjunct2, THEN conjunct2, rule_format,
      of ?S ?G ?D "''nba''"]
  have c: "fetchAllData_body (1, 2, 3) ?lg (Some (Inr ?S)) (Some (Inr ?G)) (Some (Inr ?D))
     = Some (Inr \<lparr> all_success = True, all_standings = [], all_games = [],
          all_stats = \<lparr> totalTeams = 12, gamesToday = 3, topScorer = Some ''LeBron James'',
                   avgScore = 105 \<rparr>, all_league = ''NBA'' \<rparr>)"
    using C by (simp add: upper_char_def)
  let ?gr = "draws [0, 1/24, 1/22, 1/2, 1/2, 0,   3/24, 3/22, 9/10, 1/10, 1/2,
               5/24, 5/22, 1/10, 9/10, 1/2,  7/24, 7/22, 0, 0, 0,
               9/24, 9/22, 1/3, 2/3, 99/100,   11/24, 11/22, 99/100, 0, 1/4]"
  let ?net = "\<lambda>_::string. NetworkFailure (Error []) :: standings_payload http"
  let ?gnet = "\<lambda>_::string. NetworkFailure (Error []) :: games_payload http"
  let ?env = "\<lparr> config = config_public, standings_net = ?net, games_net = ?gnet,
            settle_time = (2, 1, 0), loop_fuel = 1, standings_rng = draws [],
            games_rng = ?gr, stats_rng = draws [] \<rparr>"
  have cfg: "\<not> isAPIConfigured config_public" by (simp add: isAPIConfigured_def config_public_def)
  have d1: "default_league ?lg = ?lg" by (simp add: default_league_def)
  obtain ts g2 where
    m: "mock_standings ?lg (draws []) =
      (Inr \<lparr> success = True, data = ts, league = map upper_char ''nba'',
             source = Some ''Mock Data'' \<rparr>, g2)"
    and n: "map name ts = map Some (select_teams (map lower_char ''nba''))"
    using mock_standings_string [of "''nba''" "draws []"] by blast
  from n have "length (map name ts) = 12"
    by (simp add: lower_char_def select_teams_def NBA_TEAMS_def)
  then have lt: "length ts = 12" by simp
  let ?sres = "\<lparr> success = True, data = ts, league = map upper_char ''nba'',
             source = Some ''Mock Data'' \<rparr>"
  have s1: "Some (fst (fetchStandings config_public ?net ?lg (draws []))) = Some (Inr ?sres)"
    by (simp add: fetchStandings_def cfg d1 m)
  have "map_option (\<lambda>(r, _). case r of Inl e \<Rightarrow> None | Inr res \<Rightarrow> Some (length (data res)))
           (fetchRecentGames 1 config_public ?gnet ?lg ?gr) = Some (Some 6)"
    by code_simp
  then obtain r gx where
    x: "fetchRecentGames 1 config_public ?gnet ?lg ?gr = Some (r, gx)"
    and "(case r of Inl e \<Rightarrow> None | Inr res \<Rightarrow> Some (length (data res))) = Some 6"
    by (cases "fetchRecentGames 1 config_public ?gnet ?lg ?gr") auto
  then obtain gres where "r = Inr gres" and lg6: "length (data gres) = 6"
    by (cases r) auto
  with x have
    s2: "map_option fst (fetchRecentGames 1 config_public ?gnet ?lg ?gr) = Some (Inr gres)"
    by simp
  obtain stres where
    s3: "Some (fst (fetchDashboardStats ?lg (draws []))) = Some (Inr stres)"
    using fetchDashboardStats_string [of "''nba''" "draws []"] by auto
  note L = fetchAllData_all_or_nothing [where env = ?env and ?lg0.0 = ?lg, THEN conjunct1,
      unfolded environment.select_convs d1 s1 s2 s3]
  note D = fetchAllData_all_or_nothing [where ?t1.0 = 2 and ?t2.0 = 1 and ?t3.0 = 0
      and lg = ?lg and ?r1.0 = "Some (Inr ?sres)" and ?r2.0 = "Some (Inr gres)"
      and ?r3.0 = "Some (Inr stres)",
      THEN conjunct2, THEN conjunct2, THEN conjunct2, THEN conjunct2, rule_format,
      of ?sres gres stres "''nba''"]
  let ?d = "\<lparr> all_success = True, all_standings = data ?sres, all_games = data gres,
                            all_stats = data stres, all_league = map upper_char ''nba'' \<rparr>"
  have "fetchAllData ?env ?lg = Some (Inr ?d)"
    unfolding L using D by simp
  moreover have "length (all_standings ?d) = 12" using lt by simp
  moreover have "length (all_games ?d) = 6" using lg6 by simp
  ultimately have d: "\<exists>d. fetchAllData ?env ?lg = Some (Inr d)
        \<and> length (all_standings d) = 12 \<and> length (all_games d) = 6"
    by (intro exI [of _ ?d] conjI)
  from a b c d show ?thesis by (intro conjI)
qed

subsection \<open>loadData: one request in flight\<close>

lemma loadData_begin_noop: "isLoading (app s) \<Longrightarrow> loadData_begin r s = s"
  by (simp add: loadData_begin_def)

lemma loadData_begin_idle:
  "\<not> isLoading (app s) \<Longrightarrow>
     isLoading (app (loadData_begin r s)) \<and>
     in_flight (loadData_begin r s) = in_flight s @ [(currentLeague (app s), r)]"
  by (simp add: loadData_begin_def)

lemma loadData_resume_clears: "\<not> isLoading (app (loadData_resume outcome render s))"
  by (simp add: loadData_resume_def Let_def split: sum.splits option.splits)

lemma loadData_resume_in_flight: "in_flight (loadData_resume outcome render s) = in_flight s"
  by (simp add: loadData_resume_def Let_def split: sum.splits option.splits)

lemma showNotification_keeps [simp]:
  "app (showNotification m t s) = app s" "in_flight (showNotification m t s) = in_flight s"
  by (simp_all add: showNotification_def)

text \<open>The invariant: the flag is set exactly while one request is in flight.\<close>

lemma loadData_begin_inv:
  assumes "length (in_flight s) \<le> 1" "isLoading (app s) \<longleftrightarrow> in_flight s \<noteq> []"
  shows "length (in_flight (loadData_begin r s)) \<le> 1
    \<and> (isLoading (app (loadData_begin r s)) \<longleftrightarrow> in_flight (loadData_begin r s) \<noteq> [])"
proof (cases "isLoading (app s)")
  case True
  with assms show ?thesis by (simp add: loadData_begin_noop)
next
  case False
  with assms have "in_flight s = []" by simp
  with loadData_begin_idle [OF False, of r] show ?thesis by simp
qed

lemma step_inv:
  assumes "length (in_flight s) \<le> 1" "isLoading (app s) \<longleftrightarrow> in_flight s \<noteq> []"
  shows "length (in_flight (step e s)) \<le> 1
    \<and> (isLoading (app (step e s)) \<longleftrightarrow> in_flight (step e s) \<noteq> [])"
proof (cases e)
  case CallLoadData
  with loadData_begin_inv [OF assms] show ?thesis by simp
next
  case Tick
  with loadData_begin_inv [OF assms] show ?thesis by simp
next
  case (LeagueChange l)
  let ?s = "showNotification (''Switching to '' @ map upper_char l @ ''...'') ''info''
                (s \<lparr> app := (app s) \<lparr> currentLeague := l \<rparr> \<rparr>)"
  have "length (in_flight ?s) \<le> 1" "isLoading (app ?s) \<longleftrightarrow> in_flight ?s \<noteq> []"
    using assms by simp_all
  from loadData_begin_inv [OF this] LeagueChange assms show ?thesis by simp
next
  case Refresh
  let ?s = "showNotification ''Refreshing data...'' ''info'' s"
  have "length (in_flight ?s) \<le> 1" "isLoading (app ?s) \<longleftrightarrow> in_flight ?s \<noteq> []"
    using assms by simp_all
  from loadData_begin_inv [OF this] Refresh show ?thesis by (simp add: Let_def)
next
  case Retry
  let ?s = "s \<lparr> page := hideError (page s) \<rparr>"
  have "length (in_flight ?s) \<le> 1" "isLoading (app ?s) \<longleftrightarrow> in_flight ?s \<noteq> []"
    using assms by simp_all
  from loadData_begin_inv [OF this] Retry show ?thesis by simp
next
  case (Settle outcome render)
  show ?thesis
  proof (cases "in_flight s")
    case Nil
    with Settle assms show ?thesis by simp
  next
    case (Cons p rest)
    obtain lg r where p: "p = (lg, r)" by (cases p) auto
    from Cons assms(1) have rest: "rest = []" by simp
    from Settle Cons p rest show ?thesis
      by (simp add: Let_def loadData_resume_clears)
  qed
qed

lemma run_inv:
  assumes "length (in_flight s) \<le> 1" "isLoading (app s) \<longleftrightarrow> in_flight s \<noteq> []"
  shows "length (in_flight (run evs s)) \<le> 1
    \<and> (isLoading (app (run evs s)) \<longleftrightarrow> in_flight (run evs s) \<noteq> [])"
  using assms
proof (induction evs arbitrary: s)
  case Nil
  then show ?case by (simp add: run_def)
next
  case (Cons e evs)
  from step_inv [OF Cons.prems] have "length (in_flight (step e s)) \<le> 1"
    "isLoading (app (step e s)) \<longleftrightarrow> in_flight (step e s) \<noteq> []" by simp_all
  from Cons.IH [OF this] show ?case by (simp add: run_def)
qed

lemma step_Settle_clears:
  assumes "length (in_flight s) \<le> 1" "isLoading (app s) \<longleftrightarrow> in_flight s \<noteq> []"
  shows "\<not> isLoading (app (step (Settle outcome render) s))
    \<and> in_flight (step (Settle outcome render) s) = []"
proof (cases "in_flight s")
  case Nil
  with assms show ?thesis by simp
next
  case (Cons p rest)
  obtain lg r where p: "p = (lg, r)" by (cases p) auto
  from Cons assms(1) have rest: "rest = []" by simp
  from Cons p rest show ?thesis by (simp add: Let_def loadData_resume_clears)
qed

text \<open>
  Claim C2. In every state that the application reaches, by any sequence of calls of
  \<open>loadData\<close>, league changes, refreshes, retries, timer ticks and settled requests: a call
  of \<open>loadData\<close> while the loading flag is set returns at once and leaves the whole system
  as it is, so it starts no request; at most one request is in flight, and the flag is set
  exactly while one is; and when the request settles the flag is cleared, whether the
  request fulfilled or rejected and whether or not the rendering threw.
\<close>

theorem loadData_single_flight:
  fixes d :: dom and evs :: "event list"
  defines "s \<equiv> run evs (initial d)"
  shows "(isLoading (app s) \<longrightarrow> (\<forall>r. loadData_begin r s = s) \<and> step CallLoadData s = s)
    \<and> length (in_flight s) \<le> 1
    \<and> (isLoading (app s) \<longleftrightarrow> in_flight s \<noteq> [])
    \<and> (\<forall>outcome render. \<not> isLoading (app (loadData_resume outcome render s)))
    \<and> (\<forall>outcome render. \<not> isLoading (app (step (Settle outcome render) s))
          \<and> in_flight (step (Settle outcome render) s) = [])"
proof -
  have i: "length (in_flight (initial d)) \<le> 1"
    "isLoading (app (initial d)) \<longleftrightarrow> in_flight (initial d) \<noteq> []"
    by (simp_all add: initial_def)
  from run_inv [OF i, of evs] have inv: "length (in_flight s) \<le> 1"
    "isLoading (app s) \<longleftrightarrow> in_flight s \<noteq> []" by (simp_all add: s_def)
  from inv step_Settle_clears [OF inv] loadData_resume_clears loadData_begin_noop
  show ?thesis by simp
qed


theorem loadData_single_flight_witness:
  "isLoading (app (run [CallLoadData] (initial \<lparr> loading_hidden = Some True,
       error_hidden = Some True, error_text = Some [], main_opacity = Some ''1'' \<rparr>)))
   \<and> in_flight (run [CallLoadData] (initial \<lparr> loading_hidden = Some True,
       error_hidden = Some True, error_text = Some [], main_opacity = Some ''1'' \<rparr>))
       = [(''nba'', False)]
   \<and> run [CallLoadData, CallLoadData] (initial \<lparr> loading_hidden = Some True,
       error_hidden = Some True, error_text = Some [], main_opacity = Some ''1'' \<rparr>)
       = run [CallLoadData] (initial \<lparr> loading_hidden = Some True,
       error_hidden = Some True, error_text = Some [], main_opacity = Some ''1'' \<rparr>)
   \<and> \<not> isLoading (app (run [CallLoadData, CallLoadData, Settle (Inl (Error ''offline'')) None]
       (initial \<lparr> loading_hidden = Some True,
       error_hidden = Some True, error_text = Some [], main_opacity = Some ''1'' \<rparr>)))
   \<and> in_flight (run [CallLoadData, CallLoadData, Settle (Inl (Error ''offline'')) None]
       (initial \<lparr> loading_hidden = Some True,
       error_hidden = Some True, error_text = Some [], main_opacity = Some ''1'' \<rparr>)) = []"
proof -
  let ?d = "\<lparr> loading_hidden = Some True, error_hidden = Some True, error_text = Some [],
             main_opacity = Some ''1'' \<rparr>"
  let ?s1 = "run [CallLoadData] (initial ?d)"
  note T = loadData_single_flight [of "[CallLoadData]" ?d]
  have l: "isLoading (app ?s1)" and f: "in_flight ?s1 = [(''nba'', False)]"
    by (simp_all add: run_def initial_def loadData_begin_def)
  from T l have n: "step CallLoadData ?s1 = ?s1" by blast
  have r2: "run [CallLoadData, CallLoadData] (initial ?d) = step CallLoadData ?s1"
    by (simp add: run_def)
  have r3: "run [CallLoadData, CallLoadData, Settle (Inl (Error ''offline'')) None] (initial ?d)
      = step (Settle (Inl (Error ''offline'')) None) (step CallLoadData ?s1)"
    by (simp add: run_def)
  from T have "\<not> isLoading (app (step (Settle (Inl (Error ''offline'')) None) ?s1))
          \<and> in_flight (step (Settle (Inl (Error ''offline'')) None) ?s1) = []" by blast
  with l f n r2 r3 show ?thesis by (simp only: simp_thms)
qed

subsection \<open>sortByProperty: the two directions\<close>

lemma set_insert_cmp: "set (insert_cmp c x ys) = insert x (set ys)"
  by (induction ys) auto

lemma set_js_sort: "set (js_sort c xs) = set xs"
  by (induction xs) (simp_all add: set_insert_cmp)

lemma length_insert_cmp: "length (insert_cmp c x ys) = Suc (length ys)"
  by (induction ys) auto

lemma length_js_sort: "length (js_sort c xs) = length xs"
  by (induction xs) (simp_all add: length_insert_cmp)

lemma distinct_insert_cmp:
  "distinct (map f (insert_cmp c x ys)) \<longleftrightarrow> f x \<notin> f ` set ys \<and> distinct (map f ys)"
  by (induction ys) (auto simp: set_insert_cmp)

lemma distinct_js_sort: "distinct (map f (js_sort c xs)) \<longleftrightarrow> distinct (map f xs)"
  by (induction xs) (simp_all add: distinct_insert_cmp set_js_sort)

text \<open>
  A comparator that agrees with a total preorder \<open>R\<close> on the elements at hand keeps a
  sorted list sorted.
\<close>

lemma sorted_insert_cmp:
  assumes "sorted_wrt R ys"
    and "\<And>y. y \<in> set ys \<Longrightarrow> (c x y \<le> 0 \<longleftrightarrow> R x y)"
    and "\<And>y. y \<in> set ys \<Longrightarrow> R x y \<or> R y x"
    and "\<And>y z. y \<in> set ys \<Longrightarrow> z \<in> set ys \<Longrightarrow> R x y \<Longrightarrow> R y z \<Longrightarrow> R x z"
  shows "sorted_wrt R (insert_cmp c x ys)"
  using assms
proof (induction ys)
  case Nil
  then show ?case by simp
next
  case (Cons y ys)
  from Cons.prems(1) have s: "sorted_wrt R ys" and yall: "\<forall>z \<in> set ys. R y z" by simp_all
  show ?case
  proof (cases "c x y \<le> 0")
    case True
    have y: "y \<in> set (y # ys)" by simp
    from Cons.prems(2) [OF y] True have xy: "R x y" by simp
    have xz: "R x z" if "z \<in> set ys" for z
    proof -
      from that have z: "z \<in> set (y # ys)" by simp
      from yall that have "R y z" by simp
      with Cons.prems(4) [OF y z xy] show ?thesis .
    qed
    have "sorted_wrt R (x # y # ys)" using xy xz s yall by simp
    with True show ?thesis by simp
  next
    case False
    have y: "y \<in> set (y # ys)" by simp
    from Cons.prems(2) [OF y] Cons.prems(3) [OF y] False have yx: "R y x" by simp
    have "sorted_wrt R (insert_cmp c x ys)"
    proof (rule Cons.IH [OF s])
      show "(c x z \<le> 0) = R x z" if "z \<in> set ys" for z
        using Cons.prems(2) [of z] that by simp
      show "R x z \<or> R z x" if "z \<in> set ys" for z
        using Cons.prems(3) [of z] that by simp
      show "R x z'" if "z \<in> set ys" "z' \<in> set ys" "R x z" "R z z'" for z z'
        using Cons.prems(4) [of z z'] that by simp
    qed
    moreover have "\<forall>z \<in> set (insert_cmp c x ys). R y z"
      using yx yall by (simp add: set_insert_cmp)
    ultimately have "sorted_wrt R (y # insert_cmp c x ys)" by simp
    with False show ?thesis by simp
  qed
qed

lemma sorted_js_sort:
  assumes sub: "set xs \<subseteq> S"
    and cmp: "\<And>x y. x \<in> S \<Longrightarrow> y \<in> S \<Longrightarrow> (c x y \<le> 0) = R x y"
    and total: "\<And>x y. x \<in> S \<Longrightarrow> y \<in> S \<Longrightarrow> R x y \<or> R y x"
    and trans: "\<And>x y z. x \<in> S \<Longrightarrow> y \<in> S \<Longrightarrow> z \<in> S \<Longrightarrow> R x y \<Longrightarrow> R y z \<Longrightarrow> R x z"
  shows "sorted_wrt R (js_sort c xs)"
  using sub
proof (induction xs)
  case Nil
  show ?case by simp
next
  case (Cons x xs)
  from Cons.prems have x: "x \<in> S" and xs: "set xs \<subseteq> S" by simp_all
  from xs have "sorted_wrt R (js_sort c xs)" by (rule Cons.IH)
  then have "sorted_wrt R (insert_cmp c x (js_sort c xs))"
  proof (rule sorted_insert_cmp)
    fix y assume "y \<in> set (js_sort c xs)"
    with xs have y: "y \<in> S" by (auto simp: set_js_sort)
    show "(c x y \<le> 0) = R x y" using x y by (rule cmp)
    show "R x y \<or> R y x" using x y by (rule total)
    fix z assume "z \<in> set (js_sort c xs)"
    with xs have z: "z \<in> S" by (auto simp: set_js_sort)
    assume "R x y" "R y z"
    with x y z show "R x z" by (rule trans)
  qed
  then show ?case by simp
qed

text \<open>
  Claim C7. For every list of objects that all have the property \<open>k\<close>, with values that
  are comparable and pairwise distinct, sorting by \<open>k\<close> in descending order gives the
  reverse of sorting by \<open>k\<close> in ascending order. Distinct values alone are not enough: on a
  value that compares false both ways (a missing property, \<open>NaN\<close>) the comparator answers
  \<open>-1\<close> in both directions, and both sorts return the same list.
\<close>

theorem sortByProperty_reverse:
  fixes xs :: "('k \<Rightarrow> 'v::linorder option) list"
  assumes present: "\<forall>obj \<in> set xs. obj k \<noteq> None"
    and different: "distinct (map (\<lambda>obj. obj k) xs)"
  shows "sortByProperty xs k False = rev (sortByProperty xs k True)"
proof -
  let ?key = "\<lambda>obj :: 'k \<Rightarrow> 'v option. the (obj k)"
  let ?asc = "sortByProperty xs k True" and ?desc = "sortByProperty xs k False"
  have val: "\<exists>v. obj k = Some v" if "obj \<in> set xs" for obj
    using present that by auto
  have sa: "set ?asc = set xs" and sd: "set ?desc = set xs"
    by (simp_all add: sortByProperty_def set_js_sort)
  have ca: "((if js_gt (a k) (b k) then 1 else - 1 :: int) \<le> 0) = (?key a \<le> ?key b)"
    and cd: "((if js_lt (a k) (b k) then 1 else - 1 :: int) \<le> 0) = (?key b \<le> ?key a)"
    if "a \<in> set xs" "b \<in> set xs" for a b
  proof -
    from val that obtain va vb where "a k = Some va" "b k = Some vb" by blast
    then show "((if js_gt (a k) (b k) then 1 else - 1 :: int) \<le> 0) = (?key a \<le> ?key b)"
      and "((if js_lt (a k) (b k) then 1 else - 1 :: int) \<le> 0) = (?key b \<le> ?key a)"
      by (auto simp: js_gt_def js_lt_def)
  qed
  have asc: "sorted_wrt (\<lambda>a b. ?key a \<le> ?key b) ?asc"
    unfolding sortByProperty_def Let_def if_True
  proof (rule sorted_js_sort [where S = "set xs"])
    show "set xs \<subseteq> set xs" ..
    show "((if js_gt (a k) (b k) then 1 else - 1 :: int) \<le> 0) = (?key a \<le> ?key b)"
      if "a \<in> set xs" "b \<in> set xs" for a b using that by (rule ca)
    show "?key a \<le> ?key b \<or> ?key b \<le> ?key a" for a b by (rule linear)
    show "?key a \<le> ?key c" if "?key a \<le> ?key b" "?key b \<le> ?key c" for a b c
      using that by (rule order_trans)
  qed
  have desc: "sorted_wrt (\<lambda>a b. ?key b \<le> ?key a) ?desc"
    unfolding sortByProperty_def Let_def if_False
  proof (rule sorted_js_sort [where S = "set xs"])
    show "set xs \<subseteq> set xs" ..
    show "((if js_lt (a k) (b k) then 1 else - 1 :: int) \<le> 0) = (?key b \<le> ?key a)"
      if "a \<in> set xs" "b \<in> set xs" for a b using that by (rule cd)
    show "?key b \<le> ?key a \<or> ?key a \<le> ?key b" for a b by (rule linear)
    show "?key c \<le> ?key a" if "?key b \<le> ?key a" "?key c \<le> ?key b" for a b c
      using that(2,1) by (rule order_trans)
  qed
  have inj: "inj_on ?key (set xs)"
  proof (rule inj_onI)
    fix a b assume ab: "a \<in> set xs" "b \<in> set xs" "?key a = ?key b"
    moreover from val ab(1,2) obtain va vb where "a k = Some va" "b k = Some vb" by blast
    ultimately have "a k = b k" by simp
    with different ab(1,2) show "a = b" by (simp add: distinct_map inj_on_def)
  qed
  from different have "distinct xs" by (simp add: distinct_map)
  with inj have dk: "distinct (map ?key xs)" by (simp add: distinct_map)
  have "rev ?desc = ?asc"
  proof (rule map_sorted_distinct_set_unique [where f = ?key])
    show "inj_on ?key (set (rev ?desc) \<union> set ?asc)" using inj sa sd by simp
    show "sorted (map ?key (rev ?desc))"
      using desc by (simp add: sorted_map sorted_wrt_rev)
    show "sorted (map ?key ?asc)" using asc by (simp add: sorted_map)
    show "distinct (map ?key (rev ?desc))"
    proof -
      have "distinct (map ?key ?desc)" using dk by (simp add: sortByProperty_def distinct_js_sort)
      then have "distinct (rev (map ?key ?desc))" by (simp only: distinct_rev)
      then show ?thesis by (simp only: rev_map)
    qed
    show "distinct (map ?key ?asc)"
      using dk by (simp add: sortByProperty_def distinct_js_sort)
    show "set (rev ?desc) = set ?asc" using sa sd by simp
  qed
  then have "rev (rev ?desc) = rev ?asc" by simp
  then show ?thesis by simp
qed

theorem sortByProperty_reverse_witness:
  "sortByProperty [map_of [(''name'', 2)], map_of [(''name'', 3)], map_of [(''name'', 1::int)]]
       ''name'' False =
     [map_of [(''name'', 3)], map_of [(''name'', 2)], map_of [(''name'', 1)]]
   \<and> rev (sortByProperty [map_of [(''name'', 2)], map_of [(''name'', 3)], map_of [(''name'', 1::int)]]
       ''name'' True) =
     [map_of [(''name'', 3)], map_of [(''name'', 2)], map_of [(''name'', 1)]]"
proof -
  let ?xs = "[map_of [(''name'', 2)], map_of [(''name'', 3)], map_of [(''name'', 1::int)]]"
  have p: "\<forall>obj \<in> set ?xs. obj ''name'' \<noteq> None" by simp
  have d: "distinct (map (\<lambda>obj. obj ''name'') ?xs)" by simp
  have a: "sortByProperty ?xs ''name'' True =
      [map_of [(''name'', 1)], map_of [(''name'', 2)], map_of [(''name'', 3)]]"
    by (simp add: sortByProperty_def js_gt_def)
  from sortByProperty_reverse [OF p d] a show ?thesis by simp
qed

theorem sortByProperty_reverse_counterexample:
  "map_of [(''k'', 1::int)] ''k'' \<noteq> map_of [] ''k''
   \<and> sortByProperty [map_of [(''k'', 1::int)], map_of []] ''k'' False
       \<noteq> rev (sortByProperty [map_of [(''k'', 1::int)], map_of []] ''k'' True)"
proof -
  let ?a = "map_of [(''k'', 1::int)]" and ?b = "map_of [] :: string \<Rightarrow> int option"
  have ne: "?a ''k'' \<noteq> ?b ''k''" by simp
  then have ab: "?a \<noteq> ?b" by metis
  have "sortByProperty [?a, ?b] ''k'' False = [?a, ?b]"
    by (simp add: sortByProperty_def js_lt_def)
  moreover have "rev (sortByProperty [?a, ?b] ''k'' True) = [?b, ?a]"
    by (simp add: sortByProperty_def js_gt_def)
  ultimately show ?thesis using ne ab by simp
qed

subsection \<open>generateMockGames: termination\<close>

lemma pair_keys_iff:
  "k \<in> pair_keys teams \<longleftrightarrow>
     (\<exists>x y. x \<in> set teams \<and> y \<in> set teams \<and> x \<noteq> y \<and> k = pairKey (Some x) (Some y))"
  by (auto simp: pair_keys_def)

lemma finite_pair_keys: "finite (pair_keys teams)"
  by (simp add: pair_keys_def)

text \<open>A roster on which different pairs share a key.\<close>

lemma pair_keys_collide:
  "pair_keys [''a'', ''a-b'', ''b-c'', ''c''] =
     {''a-a-b'', ''a-b-c'', ''a-c'', ''a-b-b-c'', ''b-c-c''}"
  by (simp add: pair_keys_def pairKey_def insert_commute)


text \<open>With valid draws, every game of the result has a key of the roster.\<close>

lemma generateMockGames_needs_keys:
  assumes run: "generateMockGames fuel teams count g = Some (games, g')"
    and u: "unit_rng g" and two: "2 \<le> card (set teams)"
  shows "count \<le> card (pair_keys teams)"
proof -
  let ?key = "\<lambda>gm. pairKey (homeTeam gm) (awayTeam gm)"
  from run have loop: "games_loop fuel teams count 0 {} [] g = Some (games, g')"
    by (simp add: generateMockGames_def)
  from games_loop_keys [OF loop] have dk: "distinct (map ?key games)" by auto
  have "?key gm \<in> pair_keys teams" if gm: "gm \<in> set games" for gm
  proof -
    from games_loop_named [OF loop u] gm two obtain x y where
      xy: "x \<in> set teams" "homeTeam gm = Some x" "y \<in> set teams" "awayTeam gm = Some y"
      by (auto simp: list_all_iff)
    from games_loop_teams [OF loop] gm xy have "x \<noteq> y" by (auto simp: list_all_iff)
    with xy show ?thesis by (auto simp: pair_keys_iff)
  qed
  then have "set (map ?key games) \<subseteq> pair_keys teams" by auto
  then have "card (set (map ?key games)) \<le> card (pair_keys teams)"
    by (rule card_mono [OF finite_pair_keys])
  moreover from distinct_card [OF dk] have "card (set (map ?key games)) = length games"
    by (simp only: length_map)
  ultimately show ?thesis using generateMockGames_length [OF run] by simp
qed

text \<open>
  On the four fixed rosters no two pairs share a key: there are as many keys as unordered
  pairs of the twelve teams.
\<close>

lemma card_pair_keys_NBA: "card (pair_keys NBA_TEAMS) = 66"
  by code_simp

lemma card_pair_keys_NFL: "card (pair_keys NFL_TEAMS) = 66"
  by code_simp

lemma card_pair_keys_MLB: "card (pair_keys MLB_TEAMS) = 66"
  by code_simp

lemma card_pair_keys_EPL: "card (pair_keys EPL_TEAMS) = 66"
  by code_simp

lemmas card_pair_keys_rosters =
  card_pair_keys_NBA card_pair_keys_NFL card_pair_keys_MLB card_pair_keys_EPL

text \<open>The draws that each function reads, and what is left of the source.\<close>

lemma random_advance: "random g = (g 0, advance 1 g)"
  by (simp add: random_def advance_def)

lemma advance_advance: "advance n (advance m g) = advance (m + n) g"
  by (simp add: advance_def add.assoc)

lemma advance_0: "advance 0 g = g"
  by (simp add: advance_def)

lemma getRandomInt_advance: "snd (getRandomInt mn mx g) = advance 1 g"
  by (simp add: getRandomInt_def random_advance)

lemma getRandomElement_advance: "snd (getRandomElement xs g) = advance 1 g"
  by (simp add: getRandomElement_def random_advance Let_def)

lemma pick_pair_advance:
  assumes "pick_pair teams g = (h, a, k, g2)"
  shows "g2 = advance 2 g"
proof -
  obtain h0 g1 where 1: "getRandomElement teams g = (h0, g1)" by force
  obtain a0 g3 where 2: "getRandomElement (filter (\<lambda>t. Some t \<noteq> h0) teams) g1 = (a0, g3)"
    by force
  from getRandomElement_advance [of teams g] 1 have g1: "g1 = advance 1 g" by simp
  from getRandomElement_advance [of "filter (\<lambda>t. Some t \<noteq> h0) teams" g1] 2
  have "g3 = advance 1 g1" by simp
  with g1 have "g3 = advance (1 + 1) g" by (simp only: advance_advance)
  then have "g3 = advance 2 g" by (simp add: numeral_2_eq_2)
  moreover from assms 1 2 have "g2 = g3" by (simp add: pick_pair_def)
  ultimately show ?thesis by simp
qed

lemma make_game_advance: "snd (make_game i h a g) = advance 3 g"
proof -
  obtain hs g1 where 1: "getRandomInt 80 130 g = (hs, g1)" by force
  obtain as g2 where 2: "getRandomInt 80 130 g1 = (as, g2)" by force
  obtain d g3 where 3: "getRandomInt 0 7 g2 = (d, g3)" by force
  from getRandomInt_advance [of 80 130 g] 1 have "g1 = advance 1 g" by simp
  moreover from getRandomInt_advance [of 80 130 g1] 2 have "g2 = advance 1 g1" by simp
  moreover from getRandomInt_advance [of 0 7 g2] 3 have "g3 = advance 1 g2" by simp
  ultimately have "g3 = advance (1 + 1 + 1) g" by (simp only: advance_advance)
  then have "g3 = advance 3 g" by (simp add: numeral_3_eq_3)
  moreover have "snd (make_game i h a g) = g3" by (simp add: make_game_def 1 2 3)
  ultimately show ?thesis by simp
qed

lemma keeps_drawing_advance:
  assumes "keeps_drawing teams g"
  shows "keeps_drawing teams (advance j g)"
  unfolding keeps_drawing_def
proof (intro allI ballI)
  fix n k assume "k \<in> pair_keys teams"
  with assms obtain m where
    "fst (snd (snd (pick_pair teams (advance ((j + n) + 2 * m) g)))) = k"
    unfolding keeps_drawing_def by blast
  then have "fst (snd (snd (pick_pair teams (advance (n + 2 * m) (advance j g))))) = k"
    by (simp add: advance_advance add.assoc)
  then show "\<exists>m. fst (snd (snd (pick_pair teams (advance (n + 2 * m) (advance j g))))) = k" ..
qed

lemma draw_pair_retries:
  "fst (snd (snd (pick_pair teams (advance (2 * m) g)))) \<notin> used
     \<Longrightarrow> \<exists>r. draw_pair (Suc m) teams used g = Some r"
proof (induction m arbitrary: g)
  case 0
  obtain h a k g2 where p: "pick_pair teams g = (h, a, k, g2)" by (cases "pick_pair teams g") auto
  with 0 have "k \<notin> used" by (simp add: advance_0)
  with p show ?case by simp
next
  case (Suc m)
  obtain h a k g2 where p: "pick_pair teams g = (h, a, k, g2)" by (cases "pick_pair teams g") auto
  show ?case
  proof (cases "k \<in> used")
    case False
    with p show ?thesis by simp
  next
    case True
    from pick_pair_advance [OF p] have "advance (2 * m) g2 = advance (2 * Suc m) g"
      by (simp add: advance_advance)
    with Suc.prems have "fst (snd (snd (pick_pair teams (advance (2 * m) g2)))) \<notin> used" by simp
    from Suc.IH [OF this] obtain r where "draw_pair (Suc m) teams used g2 = Some r" ..
    with p True have "draw_pair (Suc (Suc m)) teams used g = Some r"
      by (simp del: draw_pair.simps add: draw_pair.simps(2) [of "Suc m"])
    then show ?thesis ..
  qed
qed

lemma draw_pair_mono:
  "draw_pair fuel teams used g = Some r \<Longrightarrow> fuel \<le> fuel' \<Longrightarrow> draw_pair fuel' teams used g = Some r"
proof (induction fuel arbitrary: fuel' g)
  case 0
  then show ?case by simp
next
  case (Suc fuel)
  from Suc.prems(2) obtain f where f: "fuel' = Suc f" "fuel \<le> f" by (cases fuel') auto
  obtain h a k g2 where p: "pick_pair teams g = (h, a, k, g2)" by (cases "pick_pair teams g") auto
  show ?case
  proof (cases "k \<in> used")
    case False
    with Suc.prems(1) p have "r = (h, a, k, g2)" by simp
    then show ?thesis by (simp add: f(1) p False)
  next
    case True
    with Suc.prems(1) p have "draw_pair fuel teams used g2 = Some r" by simp
    from Suc.IH [OF this f(2)] show ?thesis by (simp add: f(1) p True)
  qed
qed

lemma draw_pair_keeps:
  "draw_pair fuel teams used g = Some (h, a, k, g1) \<Longrightarrow> keeps_drawing teams g
     \<Longrightarrow> keeps_drawing teams g1"
proof (induction fuel arbitrary: g)
  case 0
  then show ?case by simp
next
  case (Suc fuel)
  obtain h0 a0 k0 g2 where p: "pick_pair teams g = (h0, a0, k0, g2)"
    by (cases "pick_pair teams g") auto
  from pick_pair_advance [OF p] Suc.prems(2) have k2: "keeps_drawing teams g2"
    by (simp add: keeps_drawing_advance)
  show ?case
  proof (cases "k0 \<in> used")
    case True
    with Suc.prems(1) p have "draw_pair fuel teams used g2 = Some (h, a, k, g1)" by simp
    from Suc.IH [OF this k2] show ?thesis .
  next
    case False
    with Suc.prems(1) p have "g2 = g1" by simp
    with k2 show ?thesis by simp
  qed
qed

lemma games_loop_mono:
  "games_loop fuel teams n i used games g = Some r \<Longrightarrow> fuel \<le> fuel'
     \<Longrightarrow> games_loop fuel' teams n i used games g = Some r"
proof (induction n arbitrary: i used games g)
  case 0
  then show ?case by simp
next
  case (Suc n)
  obtain res g' where r: "r = (res, g')" by (cases r) auto
  from Suc.prems(1) r
  have run: "games_loop fuel teams (Suc n) i used games g = Some (res, g')" by simp
  obtain h a k g1 where d: "draw_pair fuel teams used g = Some (h, a, k, g1)"
    and l0: "games_loop fuel teams n (i + 1) (insert k used)
           (games @ [fst (make_game i h a g1)]) (snd (make_game i h a g1)) = Some (res, g')"
    by (rule games_loop_Suc [OF run])
  from l0 r have l: "games_loop fuel teams n (i + 1) (insert k used)
           (games @ [fst (make_game i h a g1)]) (snd (make_game i h a g1)) = Some r" by simp
  from draw_pair_mono [OF d Suc.prems(2)]
  have d': "draw_pair fuel' teams used g = Some (h, a, k, g1)" .
  from Suc.IH [OF l Suc.prems(2)] d' show ?case by (simp add: case_prod_beta)
qed

lemma games_loop_fair:
  assumes "keeps_drawing teams g" "n \<le> card (pair_keys teams - used)"
  shows "\<exists>fuel r. games_loop fuel teams n i used games g = Some r"
  using assms
proof (induction n arbitrary: i used games g)
  case 0
  then show ?case by simp
next
  case (Suc n)
  define S where "S = pair_keys teams - used"
  from Suc.prems(2) have cS: "Suc n \<le> card S" by (simp add: S_def)
  then have "S \<noteq> {}" by auto
  then obtain k0 where "k0 \<in> S" by auto
  then have k0: "k0 \<in> pair_keys teams" "k0 \<notin> used" by (simp_all add: S_def)
  from Suc.prems(1) k0(1) obtain m where
    "fst (snd (snd (pick_pair teams (advance (0 + 2 * m) g)))) = k0"
    unfolding keeps_drawing_def by blast
  with k0(2) have "fst (snd (snd (pick_pair teams (advance (2 * m) g)))) \<notin> used" by simp
  from draw_pair_retries [OF this] obtain r where "draw_pair (Suc m) teams used g = Some r" ..
  moreover obtain h a k g1 where "r = (h, a, k, g1)" by (cases r) auto
  ultimately have d: "draw_pair (Suc m) teams used g = Some (h, a, k, g1)" by simp
  from draw_pair_keeps [OF d Suc.prems(1)] have k1: "keeps_drawing teams g1" .
  let ?g2 = "snd (make_game i h a g1)"
  let ?gm = "fst (make_game i h a g1)"
  from k1 have k2: "keeps_drawing teams ?g2"
    by (simp add: make_game_advance keeps_drawing_advance)
  have fin: "finite S" by (simp add: S_def finite_pair_keys)
  have "pair_keys teams - insert k used = S - {k}" by (auto simp: S_def)
  moreover have "card S - 1 \<le> card (S - {k})" using fin by (simp add: card_Diff_singleton_if)
  ultimately have "n \<le> card (pair_keys teams - insert k used)" using cS by simp
  from Suc.IH [OF k2 this, of "i + 1" "games @ [?gm]"] obtain fuel r' where
    l: "games_loop fuel teams n (i + 1) (insert k used) (games @ [?gm]) ?g2 = Some r'" by blast
  let ?f = "max (Suc m) fuel"
  from draw_pair_mono [OF d, of ?f] have d': "draw_pair ?f teams used g = Some (h, a, k, g1)"
    by simp
  from games_loop_mono [OF l, of ?f]
  have l': "games_loop ?f teams n (i + 1) (insert k used) (games @ [?gm]) ?g2 = Some r'" by simp
  from d' l' have "games_loop ?f teams (Suc n) i used games g = Some r'"
    by (simp add: case_prod_beta)
  then show ?case by blast
qed

lemma generateMockGames_fair:
  assumes "keeps_drawing teams g" "count \<le> card (pair_keys teams)"
  shows "\<exists>fuel games g'. generateMockGames fuel teams count g = Some (games, g')"
proof -
  from assms(2) have "count \<le> card (pair_keys teams - {})" by simp
  from games_loop_fair [OF assms(1) this, of 0 "[]"] show ?thesis
    unfolding generateMockGames_def by auto
qed

lemma generateMockGames_mono:
  "generateMockGames fuel teams count g = Some r \<Longrightarrow> fuel \<le> fuel'
     \<Longrightarrow> generateMockGames fuel' teams count g = Some r"
  unfolding generateMockGames_def by (rule games_loop_mono)

text \<open>The source \<open>round_robin\<close> keeps drawing every pair of a roster without duplicates.\<close>

lemma round_robin_pair:
  assumes "c < n * n"
  shows "\<exists>m. round_robin n (pos + 2 * m) = of_nat (c div n) / of_nat n
           \<and> round_robin n (pos + 2 * m + 1) = of_nat (c mod n) / of_nat n"
proof -
  define P where "P = 2 * n * n + 1"
  define m where "m = (2 * c + 2 * n * n * pos) * (n * n + 1)"
  define q where "q = P * pos + 2 * c"
  have e: "pos + 2 * m = P * q + 2 * c"
    by (simp add: P_def m_def q_def algebra_simps)
  from assms have lt: "2 * c + 1 < P - 1" "2 * c < P" "2 * c + 1 < P" by (simp_all add: P_def)
  have m0: "(pos + 2 * m) mod P = 2 * c"
    unfolding e using lt(2) by simp
  have "pos + 2 * m + 1 = P * q + (2 * c + 1)" using e by simp
  then have m1: "(pos + 2 * m + 1) mod P = 2 * c + 1"
    using lt(3) by (simp only: mod_mult_self4 mod_less)
  have ne0: "2 * c \<noteq> 2 * n * n" and ne1: "2 * c + 1 \<noteq> 2 * n * n"
    using assms by simp_all
  have "round_robin n (pos + 2 * m) = of_nat (c div n) / of_nat n"
    unfolding round_robin_def P_def [symmetric] Let_def m0 using ne0 by simp
  moreover have "round_robin n (pos + 2 * m + 1) = of_nat (c mod n) / of_nat n"
    unfolding round_robin_def P_def [symmetric] Let_def m1 using ne1 by simp
  ultimately show ?thesis by blast
qed

lemma unit_rng_round_robin:
  assumes "0 < n"
  shows "unit_rng (round_robin n)"
  unfolding unit_rng_def
proof
  fix i
  define j where "j = i mod (2 * n * n + 1)"
  have jl: "j < 2 * n * n + 1" unfolding j_def by simp
  have rr: "round_robin n i =
      (if j = 2 * n * n then 0
       else if even j then of_nat (j div 2 div n) / of_nat n
       else of_nat (j div 2 mod n) / of_nat n)"
    unfolding round_robin_def j_def Let_def ..
  show "0 \<le> round_robin n i \<and> round_robin n i < 1"
  proof (cases "j = 2 * n * n")
    case True
    then show ?thesis unfolding rr by simp
  next
    case False
    with jl have "j < 2 * (n * n)" by simp
    then have "j div 2 < n * n" by simp
    then have a: "j div 2 div n < n" by (simp add: less_mult_imp_div_less)
    have b: "j div 2 mod n < n" using assms by simp
    have "0 \<le> (of_nat x / of_nat n :: rat) \<and> (of_nat x / of_nat n :: rat) < 1" if "x < n" for x
      using that assms by simp
    from this [OF a] this [OF b] False show ?thesis unfolding rr by simp
  qed
qed

lemma pick_pair_key_draws:
  "fst (snd (snd (pick_pair teams g))) = fst (snd (snd (pick_pair teams (draws [g 0, g 1]))))"
  by (simp add: pick_pair_def getRandomElement_def random_def draws_def Let_def)

lemma getRandomElement_index:
  assumes "i < length xs"
  shows "getRandomElement xs (draws (of_nat i / of_nat (length xs) # ds)) = (Some (xs ! i), draws ds)"
proof -
  from assms have n: "0 < length xs" by linarith
  then have "(of_nat i / of_nat (length xs) :: rat) * of_nat (length xs) = of_nat i" by simp
  then show ?thesis using assms by (simp add: getRandomElement_def Let_def)
qed

lemma getRandomElement_index_rest:
  assumes "j < length ys"
  shows "getRandomElement ys (draws (of_nat (j + 1) / of_nat (length ys + 1) # ds)) =
           (Some (ys ! j), draws ds)"
proof -
  define a b c :: rat where "a = of_nat (j + 1)" and "b = of_nat (length ys)"
    and "c = of_nat (length ys + 1)"
  have pos: "0 < c" by (simp add: c_def)
  have "j * (length ys + 1) \<le> (j + 1) * length ys" using assms by simp
  then have "(of_nat (j * (length ys + 1)) :: rat) \<le> of_nat ((j + 1) * length ys)"
    by (simp only: of_nat_le_iff)
  then have "of_nat j * c \<le> a * b" by (simp only: of_nat_mult a_def b_def c_def)
  then have lo: "of_nat j \<le> a * b / c" using pos by (simp only: pos_le_divide_eq)
  have "(j + 1) * length ys < (j + 1) * (length ys + 1)" by simp
  then have "(of_nat ((j + 1) * length ys) :: rat) < of_nat ((j + 1) * (length ys + 1))"
    by (simp only: of_nat_less_iff)
  then have "a * b < a * c" by (simp only: of_nat_mult a_def b_def c_def)
  then have "a * b / c < a" using pos by (simp only: pos_divide_less_eq)
  moreover have "a = of_nat j + 1" by (simp add: a_def)
  ultimately have hi: "a * b / c < of_nat j + 1" by simp
  have "\<lfloor>a * b / c\<rfloor> = int j"
    by (rule floor_unique) (use lo hi in simp_all)
  then have "\<lfloor>a / c * b\<rfloor> = int j" by simp
  then have "\<lfloor>of_nat (j + 1) / of_nat (length ys + 1) * (of_nat (length ys) :: rat)\<rfloor> = int j"
    by (simp only: a_def b_def c_def)
  then show ?thesis using assms by (simp add: getRandomElement_def Let_def del: of_nat_add of_nat_Suc)
qed

lemma length_filter_distinct:
  assumes "distinct xs" "x \<in> set xs"
  shows "length (filter (\<lambda>t. t \<noteq> x) xs) + 1 = length xs"
  using assms
proof (induction xs)
  case Nil
  then show ?case by simp
next
  case (Cons z zs)
  show ?case
  proof (cases "z = x")
    case True
    with Cons.prems(1) have "x \<notin> set zs" by simp
    then have "filter (\<lambda>t. t \<noteq> x) zs = zs" by (auto simp: filter_id_conv)
    with True show ?thesis by simp
  next
    case False
    with Cons.prems have "distinct zs" "x \<in> set zs" by simp_all
    from Cons.IH [OF this] False show ?thesis by simp
  qed
qed

lemma keeps_drawing_round_robin:
  assumes d: "distinct teams"
  shows "keeps_drawing teams (round_robin (length teams))"
  unfolding keeps_drawing_def
proof (intro allI ballI)
  fix pos k assume "k \<in> pair_keys teams"
  then obtain x y where xy: "x \<in> set teams" "y \<in> set teams" "x \<noteq> y"
    and k: "k = pairKey (Some x) (Some y)" by (auto simp: pair_keys_iff)
  let ?n = "length teams"
  let ?rest = "filter (\<lambda>t. t \<noteq> x) teams"
  from xy(1) obtain i where i: "i < ?n" "teams ! i = x" by (auto simp: in_set_conv_nth)
  from xy(2,3) have "y \<in> set ?rest" by simp
  then obtain j where j: "j < length ?rest" "?rest ! j = y" unfolding in_set_conv_nth by blast
  from length_filter_distinct [OF d xy(1)] have len: "length ?rest + 1 = ?n" .
  define c where "c = i * ?n + (j + 1)"
  from j(1) len have j1: "j + 1 < ?n" by simp
  then have cd: "c div ?n = i" and cm: "c mod ?n = j + 1"
    unfolding c_def by (simp_all only: div_mult_self3 mod_mult_self3 div_less mod_less add_0_right)
  have "c < i * ?n + ?n" using j1 by (simp add: c_def)
  also have "\<dots> = (i + 1) * ?n" by simp
  also have "\<dots> \<le> ?n * ?n" using i(1) by (simp only: mult_le_mono1 Suc_leI Suc_eq_plus1 [symmetric])
  finally have "c < ?n * ?n" .
  from round_robin_pair [OF this, of pos] obtain m where
    m: "round_robin ?n (pos + 2 * m) = of_nat i / of_nat ?n"
       "round_robin ?n (pos + 2 * m + 1) = of_nat (j + 1) / of_nat ?n"
    unfolding cd cm by blast
  let ?g = "advance (pos + 2 * m) (round_robin ?n)"
  define r0 r1 where "r0 = ?g 0" and "r1 = ?g 1"
  have g0: "r0 = of_nat i / of_nat ?n" and g1: "r1 = of_nat (j + 1) / of_nat (length ?rest + 1)"
    using m len by (simp_all add: advance_def r0_def r1_def)
  have 1: "getRandomElement teams (draws [r0, r1]) = (Some x, draws [r1])"
    unfolding g0 using getRandomElement_index [OF i(1)] i(2) by simp
  have 2: "getRandomElement ?rest (draws [r1]) = (Some y, draws [])"
    unfolding g1 using getRandomElement_index_rest [OF j(1)] j(2) by simp
  have "fst (snd (snd (pick_pair teams ?g))) = fst (snd (snd (pick_pair teams (draws [r0, r1]))))"
    unfolding r0_def r1_def by (rule pick_pair_key_draws)
  also have "\<dots> = k"
    by (simp add: pick_pair_def 1 2 k)
  finally show "\<exists>m. fst (snd (snd (pick_pair teams (advance (pos + 2 * m) (round_robin ?n))))) = k" ..
qed

lemma distinct_rosters:
  "distinct NBA_TEAMS" "distinct NFL_TEAMS" "distinct MLB_TEAMS" "distinct EPL_TEAMS"
  by (simp_all add: NBA_TEAMS_def NFL_TEAMS_def MLB_TEAMS_def EPL_TEAMS_def)

lemma length_NBA_TEAMS: "length NBA_TEAMS = 12"
  by (simp add: NBA_TEAMS_def)

lemma keeps_drawing_NBA: "keeps_drawing NBA_TEAMS (round_robin 12)"
  using keeps_drawing_round_robin [OF distinct_rosters(1)] unfolding length_NBA_TEAMS .

text \<open>
  Claim C10. On every source that keeps drawing every pair of the roster,
  \<open>generateMockGames\<close> returns \<open>count\<close> games whenever \<open>count\<close> does not exceed the number of
  keys of the roster: every retry loop ends, after a number of passes that depends on the
  source (more fuel does not change the result). When the roster has two different names
  and \<open>count\<close> exceeds the number of keys, the function returns on no draws from \<open>[0, 1)\<close>.
  On each of the four fixed rosters there are 66 keys, as many as unordered pairs of the
  twelve teams, so six games are always completed. The number of unordered pairs is not
  the bound in general: a roster on which two pairs share a key has fewer keys than pairs.
\<close>

theorem generateMockGames_terminates:
  "(keeps_drawing teams g \<and> count \<le> card (pair_keys teams) \<longrightarrow>
      (\<exists>fuel games g'. length games = count
         \<and> (\<forall>fuel' \<ge> fuel. generateMockGames fuel' teams count g = Some (games, g'))))
   \<and> (2 \<le> card (set teams) \<and> unit_rng g \<and> card (pair_keys teams) < count \<longrightarrow>
         generateMockGames fuel teams count g = None)
   \<and> (teams \<in> {NBA_TEAMS, NFL_TEAMS, MLB_TEAMS, EPL_TEAMS} \<longrightarrow>
         card (pair_keys teams) = 66
         \<and> (keeps_drawing teams g \<longrightarrow>
              (\<exists>fuel games g'. generateMockGames fuel teams 6 g = Some (games, g')
                 \<and> length games = 6)))"
proof -
  have ret: "\<exists>fuel games g'. length games = n
         \<and> (\<forall>fuel' \<ge> fuel. generateMockGames fuel' teams n g = Some (games, g'))"
    if "keeps_drawing teams g" "n \<le> card (pair_keys teams)" for n
  proof -
    from generateMockGames_fair [OF that] obtain fuel games g' where
      run: "generateMockGames fuel teams n g = Some (games, g')" by blast
    from generateMockGames_length [OF run] have "length games = n" .
    moreover have "generateMockGames fuel' teams n g = Some (games, g')" if "fuel \<le> fuel'" for fuel'
      using run that by (rule generateMockGames_mono)
    ultimately show ?thesis by blast
  qed
  have never: "generateMockGames fuel teams count g = None"
    if "2 \<le> card (set teams)" "unit_rng g" "card (pair_keys teams) < count"
  proof (cases "generateMockGames fuel teams count g")
    case None
    then show ?thesis .
  next
    case (Some r)
    obtain games g' where "r = (games, g')" by (cases r) auto
    with Some have "generateMockGames fuel teams count g = Some (games, g')" by simp
    from generateMockGames_needs_keys [OF this that(2,1)] that(3) show ?thesis by simp
  qed
  have rosters: "card (pair_keys teams) = 66
         \<and> (keeps_drawing teams g \<longrightarrow>
              (\<exists>fuel games g'. generateMockGames fuel teams 6 g = Some (games, g')
                 \<and> length games = 6))"
    if "teams \<in> {NBA_TEAMS, NFL_TEAMS, MLB_TEAMS, EPL_TEAMS}"
  proof -
    from that have c: "card (pair_keys teams) = 66" using card_pair_keys_rosters by auto
    then have "6 \<le> card (pair_keys teams)" by simp
    from ret [OF _ this] c show ?thesis by blast
  qed
  from ret never rosters show ?thesis by blast
qed

theorem generateMockGames_terminates_witness:
  "unit_rng (round_robin 12) \<and> keeps_drawing NBA_TEAMS (round_robin 12)
   \<and> 6 \<le> card (pair_keys NBA_TEAMS)
   \<and> (\<exists>fuel games g'. length games = 6
         \<and> generateMockGames fuel NBA_TEAMS 6 (round_robin 12) = Some (games, g'))
   \<and> generateMockGames 3 NBA_TEAMS 6 (round_robin 12) = None
   \<and> (\<exists>games g'. generateMockGames 4 NBA_TEAMS 6 (round_robin 12) = Some (games, g')
         \<and> map homeTeam games =
             [Some ''Lakers'', Some ''Warriors'', Some ''Lakers'', Some ''Nuggets'', Some ''Lakers'',
              Some ''Nets'']
         \<and> map awayTeam games =
             [Some ''Celtics'', Some ''Lakers'', Some ''Heat'', Some ''Lakers'', Some ''76ers'',
              Some ''Lakers''])
   \<and> 2 \<le> card (set [''a'', ''b'']) \<and> unit_rng (draws []) \<and> card (pair_keys [''a'', ''b'']) < 2
   \<and> generateMockGames 9 [''a'', ''b''] 2 (draws []) = None"
proof -
  note T = generateMockGames_terminates [of NBA_TEAMS "round_robin 12" 6]
  note N = generateMockGames_terminates [of "[''a'', ''b'']" "draws []" 2 9]
  have u: "unit_rng (round_robin 12)" by (rule unit_rng_round_robin) simp
  have k: "keeps_drawing NBA_TEAMS (round_robin 12)" by (rule keeps_drawing_NBA)
  have six: "6 \<le> card (pair_keys NBA_TEAMS)" by (simp add: card_pair_keys_NBA)
  from T k six have "\<exists>fuel games g'. length games = 6
         \<and> (\<forall>fuel' \<ge> fuel. generateMockGames fuel' NBA_TEAMS 6 (round_robin 12) = Some (games, g'))"
    by blast
  then have r: "\<exists>fuel games g'. length games = 6
         \<and> generateMockGames fuel NBA_TEAMS 6 (round_robin 12) = Some (games, g')"
    by blast
  have r3: "generateMockGames 3 NBA_TEAMS 6 (round_robin 12) = None" by code_simp
  have "map_option (\<lambda>(gs, _). (map homeTeam gs, map awayTeam gs))
          (generateMockGames 4 NBA_TEAMS 6 (round_robin 12)) =
        Some ([Some ''Lakers'', Some ''Warriors'', Some ''Lakers'', Some ''Nuggets'', Some ''Lakers'',
               Some ''Nets''],
              [Some ''Celtics'', Some ''Lakers'', Some ''Heat'', Some ''Lakers'', Some ''76ers'',
               Some ''Lakers''])"
    by code_simp
  then have r4: "\<exists>games g'. generateMockGames 4 NBA_TEAMS 6 (round_robin 12) = Some (games, g')
         \<and> map homeTeam games =
             [Some ''Lakers'', Some ''Warriors'', Some ''Lakers'', Some ''Nuggets'', Some ''Lakers'',
              Some ''Nets'']
         \<and> map awayTeam games =
             [Some ''Celtics'', Some ''Lakers'', Some ''Heat'', Some ''Lakers'', Some ''76ers'',
              Some ''Lakers'']"
    by (cases "generateMockGames 4 NBA_TEAMS 6 (round_robin 12)") auto
  have two: "2 \<le> card (set [''a'', ''b''])" by simp
  have u0: "unit_rng (draws [])" by (simp add: unit_rng_def draws_def)
  have "pair_keys [''a'', ''b''] = {''a-b''}" by (simp add: pair_keys_def pairKey_def)
  then have one: "card (pair_keys [''a'', ''b'']) < 2" by simp
  from N two u0 one have n: "generateMockGames 9 [''a'', ''b''] 2 (draws []) = None" by blast
  from u k six r r3 r4 two u0 one n show ?thesis by (intro conjI)
qed

theorem generateMockGames_terminates_counterexample:
  "2 \<le> card (set [''a'', ''a-b'', ''b-c'', ''c''])
   \<and> 6 \<le> card (set [''a'', ''a-b'', ''b-c'', ''c'']) choose 2
   \<and> \<not> (\<exists>fuel g. unit_rng g
          \<and> generateMockGames fuel [''a'', ''a-b'', ''b-c'', ''c''] 6 g \<noteq> None)"
proof -
  let ?teams = "[''a'', ''a-b'', ''b-c'', ''c'']"
  have c: "card (set ?teams) = 4" by simp
  have five: "card (pair_keys ?teams) = 5" by (simp add: pair_keys_collide)
  have "generateMockGames fuel ?teams 6 g = None" if "unit_rng g" for fuel g
  proof (cases "generateMockGames fuel ?teams 6 g")
    case None
    then show ?thesis .
  next
    case (Some r)
    obtain games g' where "r = (games, g')" by (cases r) auto
    with Some have "generateMockGames fuel ?teams 6 g = Some (games, g')" by simp
    from generateMockGames_needs_keys [OF this that] c five show ?thesis by simp
  qed
  then have none: "\<not> (\<exists>fuel g. unit_rng g \<and> generateMockGames fuel ?teams 6 g \<noteq> None)"
    by simp
  have "(4::nat) choose 2 = 6" by (simp add: choose_two)
  then have ch: "6 \<le> card (set ?teams) choose 2" by (simp only: c)
  have two: "2 \<le> card (set ?teams)" by simp
  from two ch none show ?thesis by (intro conjI)
qed

subsection \<open>The mock paths: the league that the switch does not know\<close>

lemma simulateNetworkDelay_advance: "simulateNetworkDelay a b g = advance 1 g"
  by (simp add: simulateNetworkDelay_def getRandomInt_advance)

lemma simulateNetworkDelay_unit: "unit_rng g \<Longrightarrow> unit_rng (simulateNetworkDelay a b g)"
  unfolding simulateNetworkDelay_def
  by (rule getRandomInt_unit [of g a b "fst (getRandomInt a b g)"]) simp_all

lemma generateMockGames_named:
  assumes run: "generateMockGames fuel teams count g = Some (games, g')"
    and u: "unit_rng g" and two: "2 \<le> card (set teams)" and gm: "gm \<in> set games"
  shows "\<exists>x \<in> set teams. \<exists>y \<in> set teams. homeTeam gm = Some x \<and> awayTeam gm = Some y \<and> x \<noteq> y"
proof -
  from run have loop: "games_loop fuel teams count 0 {} [] g = Some (games, g')"
    by (simp add: generateMockGames_def)
  from games_loop_named [OF loop u] gm two obtain x y where
    xy: "x \<in> set teams" "homeTeam gm = Some x" "y \<in> set teams" "awayTeam gm = Some y"
    by (auto simp: list_all_iff)
  from games_loop_teams [OF loop] gm xy have "x \<noteq> y" by (auto simp: list_all_iff)
  with xy show ?thesis by blast
qed

lemma two_NBA_TEAMS: "2 \<le> card (set NBA_TEAMS)"
  by (simp add: NBA_TEAMS_def)

text \<open>
  Claim C8. For every league string whose lower-case form is none of \<open>nba\<close>, \<open>nfl\<close>, \<open>mlb\<close>,
  \<open>epl\<close>, the switch of the mock paths selects the NBA roster.
  \<^item> \<open>fetchStandings\<close>: a mock result lists exactly the NBA teams, and the mock path (no
    API key, or a failure of the real endpoint) always returns such a result.
  \<^item> \<open>fetchRecentGames\<close>: a mock result has six games, each between two different NBA
    teams; and on a source that keeps drawing every pair of the NBA roster the mock path
    returns such a result.

  This holds for \<open>nhl\<close>, which the configuration lists among its leagues.
\<close>

theorem unknown_league_uses_nba_roster:
  assumes "map lower_char s \<notin> {''nba'', ''nfl'', ''mlb'', ''epl''}"
  shows "select_teams (map lower_char s) = NBA_TEAMS
    \<and> (\<forall>cfg net g res g'.
          fetchStandings cfg net (ArgString s) g = (Inr res, g') \<and> source res = Some ''Mock Data''
          \<longrightarrow> map name (data res) = map Some NBA_TEAMS)
    \<and> (\<forall>cfg net g.
          (isAPIConfigured cfg \<longrightarrow> (\<exists>e. fst (real_standings cfg net (ArgString s) g) = Inl e))
          \<longrightarrow> (\<exists>res g'. fetchStandings cfg net (ArgString s) g = (Inr res, g')
                 \<and> source res = Some ''Mock Data''
                 \<and> map name (data res) = map Some NBA_TEAMS))
    \<and> (\<forall>fuel cfg net g res g'.
          unit_rng g \<and> fetchRecentGames fuel cfg net (ArgString s) g = Some (Inr res, g')
            \<and> source res = Some ''Mock Data''
          \<longrightarrow> length (data res) = 6
              \<and> (\<forall>gm \<in> set (data res). \<exists>x \<in> set NBA_TEAMS. \<exists>y \<in> set NBA_TEAMS.
                    homeTeam gm = Some x \<and> awayTeam gm = Some y \<and> x \<noteq> y))
    \<and> (\<forall>cfg net g.
          (isAPIConfigured cfg \<longrightarrow> (\<exists>e. real_games cfg net (ArgString s) = Inl e))
            \<and> unit_rng g \<and> keeps_drawing NBA_TEAMS g
          \<longrightarrow> (\<exists>fuel res g'. fetchRecentGames fuel cfg net (ArgString s) g = Some (Inr res, g')
                 \<and> source res = Some ''Mock Data'' \<and> length (data res) = 6
                 \<and> (\<forall>gm \<in> set (data res). \<exists>x \<in> set NBA_TEAMS. \<exists>y \<in> set NBA_TEAMS.
                       homeTeam gm = Some x \<and> awayTeam gm = Some y \<and> x \<noteq> y)))"
proof -
  have sel: "select_teams (map lower_char s) = NBA_TEAMS"
    using assms by (rule select_teams_default)
  have d: "default_league (ArgString s) = ArgString s" by (simp add: default_league_def)
  from mock_standings_string [of s] sel
  have m: "\<And>g0. \<exists>ts g2. mock_standings (ArgString s) g0 =
      (Inr \<lparr> success = True, data = ts, league = map upper_char s,
             source = Some ''Mock Data'' \<rparr>, g2) \<and> map name ts = map Some NBA_TEAMS" by simp
  have st: "map name (data res) = map Some NBA_TEAMS"
    if a: "fetchStandings cfg net (ArgString s) g = (Inr res, g') \<and> source res = Some ''Mock Data''"
    for cfg net g res g'
  proof (cases "isAPIConfigured cfg")
    case False
    with a d have "mock_standings (ArgString s) g = (Inr res, g')"
      by (simp add: fetchStandings_def)
    with m [of g] show ?thesis by auto
  next
    case True
    obtain r g1 where r: "real_standings cfg net (ArgString s) g = (r, g1)" by force
    show ?thesis
    proof (cases r)
      case (Inl e)
      with a d True r have "mock_standings (ArgString s) g1 = (Inr res, g')"
        by (simp add: fetchStandings_def)
      with m [of g1] show ?thesis by auto
    next
      case (Inr res0)
      with a d True r have "res0 = res" by (simp add: fetchStandings_def)
      with real_standings_source [of cfg net "ArgString s" g res0 g1] r Inr a
      show ?thesis by simp
    qed
  qed
  have stp: "\<exists>res g'. fetchStandings cfg net (ArgString s) g = (Inr res, g')
                 \<and> source res = Some ''Mock Data''
                 \<and> map name (data res) = map Some NBA_TEAMS"
    if a: "isAPIConfigured cfg \<longrightarrow> (\<exists>e. fst (real_standings cfg net (ArgString s) g) = Inl e)"
    for cfg net g
  proof -
    have "\<exists>g1. fetchStandings cfg net (ArgString s) g = mock_standings (ArgString s) g1"
    proof (cases "isAPIConfigured cfg")
      case False
      then show ?thesis by (auto simp: fetchStandings_def d)
    next
      case True
      with a obtain e where "fst (real_standings cfg net (ArgString s) g) = Inl e" by blast
      then obtain g1 where "real_standings cfg net (ArgString s) g = (Inl e, g1)"
        by (cases "real_standings cfg net (ArgString s) g") auto
      with True show ?thesis by (auto simp: fetchStandings_def d)
    qed
    then obtain g1 where "fetchStandings cfg net (ArgString s) g = mock_standings (ArgString s) g1" ..
    with m [of g1] show ?thesis by auto
  qed
  have named: "length gs = 6
              \<and> (\<forall>gm \<in> set gs. \<exists>x \<in> set NBA_TEAMS. \<exists>y \<in> set NBA_TEAMS.
                    homeTeam gm = Some x \<and> awayTeam gm = Some y \<and> x \<noteq> y)"
    if u: "unit_rng g"
      and run: "generateMockGames fuel NBA_TEAMS 6 (simulateNetworkDelay 300 800 g) = Some (gs, g')"
    for fuel g gs g'
  proof -
    from u have u1: "unit_rng (simulateNetworkDelay 300 800 g)" by (rule simulateNetworkDelay_unit)
    from generateMockGames_named [OF run u1 two_NBA_TEAMS] generateMockGames_length [OF run]
    show ?thesis by blast
  qed
  have gms: "length (data res) = 6
              \<and> (\<forall>gm \<in> set (data res). \<exists>x \<in> set NBA_TEAMS. \<exists>y \<in> set NBA_TEAMS.
                    homeTeam gm = Some x \<and> awayTeam gm = Some y \<and> x \<noteq> y)"
    if a: "unit_rng g \<and> fetchRecentGames fuel cfg net (ArgString s) g = Some (Inr res, g')
        \<and> source res = Some ''Mock Data''"
    for fuel cfg net g res g'
  proof -
    have mk: ?thesis if "mock_games fuel (ArgString s) g = Some (Inr res, g')"
    proof -
      from that obtain gs where
        run: "generateMockGames fuel NBA_TEAMS 6 (simulateNetworkDelay 300 800 g) = Some (gs, g')"
        and "data res = gs"
        by (auto simp: mock_games_string sel)
      with named [OF _ run] a show ?thesis by simp
    qed
    show ?thesis
    proof (cases "isAPIConfigured cfg")
      case False
      with a d have "mock_games fuel (ArgString s) g = Some (Inr res, g')"
        by (simp add: fetchRecentGames_def)
      then show ?thesis by (rule mk)
    next
      case True
      show ?thesis
      proof (cases "real_games cfg net (ArgString s)")
        case (Inl e)
        with a d True have "mock_games fuel (ArgString s) g = Some (Inr res, g')"
          by (simp add: fetchRecentGames_def)
        then show ?thesis by (rule mk)
      next
        case (Inr res0)
        with a d True have "res0 = res" by (simp add: fetchRecentGames_def)
        with real_games_source [OF Inr] a show ?thesis by simp
      qed
    qed
  qed
  have gmp: "\<exists>fuel res g'. fetchRecentGames fuel cfg net (ArgString s) g = Some (Inr res, g')
                 \<and> source res = Some ''Mock Data'' \<and> length (data res) = 6
                 \<and> (\<forall>gm \<in> set (data res). \<exists>x \<in> set NBA_TEAMS. \<exists>y \<in> set NBA_TEAMS.
                       homeTeam gm = Some x \<and> awayTeam gm = Some y \<and> x \<noteq> y)"
    if a: "(isAPIConfigured cfg \<longrightarrow> (\<exists>e. real_games cfg net (ArgString s) = Inl e))
            \<and> unit_rng g \<and> keeps_drawing NBA_TEAMS g"
    for cfg net g
  proof -
    from a have u: "unit_rng g" and k: "keeps_drawing NBA_TEAMS g" by simp_all
    have f: "fetchRecentGames fuel cfg net (ArgString s) g = mock_games fuel (ArgString s) g"
      for fuel
      using a by (auto simp: fetchRecentGames_def d Let_def)
    from k have k1: "keeps_drawing NBA_TEAMS (simulateNetworkDelay 300 800 g)"
      by (simp add: simulateNetworkDelay_advance keeps_drawing_advance)
    have "6 \<le> card (pair_keys NBA_TEAMS)" by (simp add: card_pair_keys_NBA)
    from generateMockGames_fair [OF k1 this] obtain fuel gs g' where
      run: "generateMockGames fuel NBA_TEAMS 6 (simulateNetworkDelay 300 800 g) = Some (gs, g')"
      by blast
    let ?res = "\<lparr> success = True, data = gs, league = map upper_char s,
                   source = Some ''Mock Data'' \<rparr>"
    have "fetchRecentGames fuel cfg net (ArgString s) g = Some (Inr ?res, g')"
      by (simp add: f mock_games_string sel run)
    moreover have "source ?res = Some ''Mock Data''" by simp
    moreover from named [OF u run] have "length (data ?res) = 6
              \<and> (\<forall>gm \<in> set (data ?res). \<exists>x \<in> set NBA_TEAMS. \<exists>y \<in> set NBA_TEAMS.
                    homeTeam gm = Some x \<and> awayTeam gm = Some y \<and> x \<noteq> y)" by simp
    ultimately show ?thesis by blast
  qed
  show ?thesis
  proof (intro conjI allI impI)
    show "select_teams (map lower_char s) = NBA_TEAMS" by (rule sel)
  next
    fix cfg :: api_config and net :: "standings_payload network" and g res g'
    assume "fetchStandings cfg net (ArgString s) g = (Inr res, g') \<and> source res = Some ''Mock Data''"
    then show "map name (data res) = map Some NBA_TEAMS" by (rule st)
  next
    fix cfg :: api_config and net :: "standings_payload network" and g
    assume "isAPIConfigured cfg \<longrightarrow> (\<exists>e. fst (real_standings cfg net (ArgString s) g) = Inl e)"
    then show "\<exists>res g'. fetchStandings cfg net (ArgString s) g = (Inr res, g')
                 \<and> source res = Some ''Mock Data''
                 \<and> map name (data res) = map Some NBA_TEAMS" by (rule stp)
  next
    fix fuel and cfg :: api_config and net :: "games_payload network" and g res g'
    assume a: "unit_rng g \<and> fetchRecentGames fuel cfg net (ArgString s) g = Some (Inr res, g')
            \<and> source res = Some ''Mock Data''"
    from gms [OF a] show "length (data res) = 6" ..
    from gms [OF a] show "\<forall>gm \<in> set (data res). \<exists>x \<in> set NBA_TEAMS. \<exists>y \<in> set NBA_TEAMS.
                    homeTeam gm = Some x \<and> awayTeam gm = Some y \<and> x \<noteq> y" ..
  next
    fix cfg :: api_config and net :: "games_payload network" and g
    assume "(isAPIConfigured cfg \<longrightarrow> (\<exists>e. real_games cfg net (ArgString s) = Inl e))
            \<and> unit_rng g \<and> keeps_drawing NBA_TEAMS g"
    then show "\<exists>fuel res g'. fetchRecentGames fuel cfg net (ArgString s) g = Some (Inr res, g')
                 \<and> source res = Some ''Mock Data'' \<and> length (data res) = 6
                 \<and> (\<forall>gm \<in> set (data res). \<exists>x \<in> set NBA_TEAMS. \<exists>y \<in> set NBA_TEAMS.
                       homeTeam gm = Some x \<and> awayTeam gm = Some y \<and> x \<noteq> y)" by (rule gmp)
  qed
qed


theorem unknown_league_uses_nba_roster_witness:
  "(''NHL'', ''nhl'') \<in> set (LEAGUES config_public)
   \<and> map lower_char ''nhl'' \<notin> {''nba'', ''nfl'', ''mlb'', ''epl''}
   \<and> (\<exists>res g'. fetchStandings config_public (\<lambda>_. NetworkFailure (Error [])) (ArgString ''nhl'')
                  (draws []) = (Inr res, g')
         \<and> source res = Some ''Mock Data'' \<and> league res = ''NHL''
         \<and> map name (data res) = map Some NBA_TEAMS)
   \<and> unit_rng (round_robin 12) \<and> keeps_drawing NBA_TEAMS (round_robin 12)
   \<and> (\<exists>res g'. fetchRecentGames 2 config_public (\<lambda>_. NetworkFailure (Error [])) (ArgString ''nhl'')
                  (round_robin 12) = Some (Inr res, g')
         \<and> source res = Some ''Mock Data'' \<and> league res = ''NHL'' \<and> length (data res) = 6
         \<and> map homeTeam (data res) =
             [Some ''Lakers'', Some ''Lakers'', Some ''Heat'', Some ''Lakers'', Some ''76ers'',
              Some ''Celtics'']
         \<and> map awayTeam (data res) =
             [Some ''Celtics'', Some ''Nets'', Some ''Lakers'', Some ''Mavericks'', Some ''Lakers'',
              Some ''Warriors''])"
proof -
  let ?net = "\<lambda>_::string. NetworkFailure (Error []) :: standings_payload http"
  let ?gnet = "\<lambda>_::string. NetworkFailure (Error []) :: games_payload http"
  have h: "map lower_char ''nhl'' \<notin> {''nba'', ''nfl'', ''mlb'', ''epl''}"
    by (simp add: lower_char_def)
  note T = unknown_league_uses_nba_roster [OF h]
  have c: "\<not> isAPIConfigured config_public" by (simp add: isAPIConfigured_def config_public_def)
  have l: "(''NHL'', ''nhl'') \<in> set (LEAGUES config_public)" by (simp add: config_public_def)
  have up: "map upper_char ''nhl'' = ''NHL''" by (simp add: upper_char_def)
  note T3 = T [THEN conjunct2, THEN conjunct2, THEN conjunct1, rule_format]
  note T4 = T [THEN conjunct2, THEN conjunct2, THEN conjunct2, THEN conjunct1, rule_format]
  have "\<exists>res g'. fetchStandings config_public ?net (ArgString ''nhl'') (draws []) = (Inr res, g')
      \<and> source res = Some ''Mock Data'' \<and> map name (data res) = map Some NBA_TEAMS"
    by (rule T3) (simp add: c)
  then obtain res g' where
    s1: "fetchStandings config_public ?net (ArgString ''nhl'') (draws []) = (Inr res, g')"
    and s2: "source res = Some ''Mock Data''"
    and s3: "map name (data res) = map Some NBA_TEAMS"
    by blast
  from mock_standings_string [of "''nhl''" "draws []"] obtain ts g2 where
    "mock_standings (ArgString ''nhl'') (draws []) =
      (Inr \<lparr> success = True, data = ts, league = map upper_char ''nhl'',
             source = Some ''Mock Data'' \<rparr>, g2)" by blast
  with s1 c have "res = \<lparr> success = True, data = ts, league = map upper_char ''nhl'',
             source = Some ''Mock Data'' \<rparr>"
    by (simp add: fetchStandings_def default_league_def)
  then have s4: "league res = ''NHL''" by (simp add: upper_char_def)
  have u: "unit_rng (round_robin 12)" by (rule unit_rng_round_robin) simp
  have k: "keeps_drawing NBA_TEAMS (round_robin 12)" by (rule keeps_drawing_NBA)
  have "map_option (\<lambda>(r, _). case r of Inl e \<Rightarrow> None
           | Inr res \<Rightarrow> Some (source res, league res, map homeTeam (data res), map awayTeam (data res)))
          (fetchRecentGames 2 config_public ?gnet (ArgString ''nhl'') (round_robin 12)) =
        Some (Some (Some ''Mock Data'', ''NHL'',
          [Some ''Lakers'', Some ''Lakers'', Some ''Heat'', Some ''Lakers'', Some ''76ers'',
           Some ''Celtics''],
          [Some ''Celtics'', Some ''Nets'', Some ''Lakers'', Some ''Mavericks'', Some ''Lakers'',
           Some ''Warriors'']))"
    by code_simp
  then obtain r gx where
    x: "fetchRecentGames 2 config_public ?gnet (ArgString ''nhl'') (round_robin 12) = Some (r, gx)"
    and y: "(case r of Inl e \<Rightarrow> None
           | Inr res \<Rightarrow> Some (source res, league res, map homeTeam (data res), map awayTeam (data res))) =
        Some (Some ''Mock Data'', ''NHL'',
          [Some ''Lakers'', Some ''Lakers'', Some ''Heat'', Some ''Lakers'', Some ''76ers'',
           Some ''Celtics''],
          [Some ''Celtics'', Some ''Nets'', Some ''Lakers'', Some ''Mavericks'', Some ''Lakers'',
           Some ''Warriors''])"
    by (cases "fetchRecentGames 2 config_public ?gnet (ArgString ''nhl'') (round_robin 12)") auto
  from y obtain gres where r: "r = Inr gres" by (cases r) auto
  with y have g2: "source gres = Some ''Mock Data''" and g3: "league gres = ''NHL''"
    and g4: "map homeTeam (data gres) =
          [Some ''Lakers'', Some ''Lakers'', Some ''Heat'', Some ''Lakers'', Some ''76ers'',
           Some ''Celtics'']"
    and g5: "map awayTeam (data gres) =
          [Some ''Celtics'', Some ''Nets'', Some ''Lakers'', Some ''Mavericks'', Some ''Lakers'',
           Some ''Warriors'']"
    by simp_all
  from x r have g1: "fetchRecentGames 2 config_public ?gnet (ArgString ''nhl'') (round_robin 12)
      = Some (Inr gres, gx)" by simp
  from T4 [OF conjI [OF u conjI [OF g1 g2]]] have g6: "length (data gres) = 6" ..
  from s1 s2 s4 s3 have S: "\<exists>res g'. fetchStandings config_public ?net (ArgString ''nhl'')
                  (draws []) = (Inr res, g')
         \<and> source res = Some ''Mock Data'' \<and> league res = ''NHL''
         \<and> map name (data res) = map Some NBA_TEAMS"
    by (intro exI [of _ res] exI [of _ g'] conjI)
  from g1 g2 g3 g6 g4 g5 have G: "\<exists>res g'. fetchRecentGames 2 config_public ?gnet (ArgString ''nhl'')
                  (round_robin 12) = Some (Inr res, g')
         \<and> source res = Some ''Mock Data'' \<and> league res = ''NHL'' \<and> length (data res) = 6
         \<and> map homeTeam (data res) =
             [Some ''Lakers'', Some ''Lakers'', Some ''Heat'', Some ''Lakers'', Some ''76ers'',
              Some ''Celtics'']
         \<and> map awayTeam (data res) =
             [Some ''Celtics'', Some ''Nets'', Some ''Lakers'', Some ''Mavericks'', Some ''Lakers'',
              Some ''Warriors'']"
    by (intro exI [of _ gres] exI [of _ gx] conjI)
  from l h S u k G show ?thesis by (intro conjI)
qed

subsection \<open>Decimal numerals: writing and reading\<close>

















subsection \<open>Rounding to a double\<close>






















subsection \<open>The quotient to three decimals\<close>



subsection \<open>calculateWinPercentage\<close>






subsection \<open>The standing records: games played and win percentage\<close>















end
